theory Spec2Isabelle
  imports Complex_Main "HOL-Library.AList"
begin

section \<open>Numbers\<close>

text \<open>
  A JavaScript number is an IEEE double. A finite double is the rational it stands for;
  an operation on doubles is the exact operation followed by rounding to the nearest
  double, a tie to the even significand. The values that occur here are far from overflow
  and from the subnormal range: a result too large for a double is also too large for a
  date.
\<close>

text \<open>The position of the leading bit of a positive whole number.\<close>

function ilog2 :: "int \<Rightarrow> int" where
  "ilog2 n = (if n < 2 then 0 else 1 + ilog2 (n div 2))"
  by pat_completeness auto
termination
  by (relation "measure nat") auto

declare ilog2.simps [simp del]

text \<open>The exponent \<open>e\<close> with \<open>2^e \<le> x < 2^(e+1)\<close>, for a positive \<open>x\<close>.\<close>

definition binade :: "rat \<Rightarrow> int" where
  "binade x =
     (let (a, b) = quotient_of x;
          e = ilog2 a - ilog2 b
      in if 2 powi e \<le> x then e else e - 1)"

text \<open>Rounding to the nearest whole number, a tie to the even one.\<close>

definition roundHalfEven :: "rat \<Rightarrow> int" where
  "roundHalfEven r =
     (let f = \<lfloor>r\<rfloor>; d = r - of_int f
      in if d < 1 / 2 then f else if 1 / 2 < d then f + 1 else if even f then f else f + 1)"

text \<open>
  The double nearest to a non-negative rational: its significand has 53 bits, so the unit
  in the last place is \<open>2^(e-52)\<close>.
\<close>

definition toDouble :: "rat \<Rightarrow> rat" where
  "toDouble x =
     (if x \<le> 0 then 0
      else let ulp = 2 powi (binade x - 52)
           in of_int (roundHalfEven (x / ulp)) * ulp)"

text \<open>The double nearest to a rational of either sign.\<close>

definition roundDouble :: "rat \<Rightarrow> rat" where
  "roundDouble x = (if x < 0 then - toDouble (- x) else toDouble x)"

text \<open>The whole part of a number, towards zero.\<close>

definition truncateNumber :: "rat \<Rightarrow> int" where
  "truncateNumber v = (if v < 0 then \<lceil>v\<rceil> else \<lfloor>v\<rfloor>)"

section \<open>Instants, dates and exceptions\<close>

text \<open>
  An instant is a whole number of milliseconds since the epoch. A \<open>Date\<close> object either
  holds such an instant or is an invalid date, whose \<open>getTime()\<close> is \<open>NaN\<close>. Instants and
  their differences are mathematical integers: doubles are exact on whole numbers below
  \<open>2^53\<close>, and so on every instant in the range of a date and on its distance to a
  present-day clock.
\<close>

datatype jsdate = Date int | InvalidDate

text \<open>The one exception the modelled code can raise: \<open>toISOString()\<close> of an invalid date.\<close>

datatype jsError = RangeError

text \<open>The largest time value a \<open>Date\<close> can hold (ECMAScript \<open>TimeClip\<close>).\<close>

definition maxTime :: int where
  "maxTime = 8640000000000000"

text \<open>\<open>new Date(v)\<close> for a number \<open>v\<close>: out of range it is invalid, in range it is cut to a
  whole millisecond.\<close>

definition newDate :: "rat \<Rightarrow> jsdate" where
  "newDate v = (if abs v \<le> of_int maxTime then Date (truncateNumber v) else InvalidDate)"

section \<open>The boss snapshot\<close>

text \<open>
  The timing fields of the request payload. A field that is missing, \<open>undefined\<close> or \<open>null\<close>
  is \<open>None\<close>; the two timestamps are strings and \<open>respawn_hours\<close> is a finite number,
  whole or not, given by the value of its double.
\<close>

record boss =
  monster :: string
  respawn_time :: "string option"
  time_of_death :: "string option"
  respawn_hours :: "rat option"

section \<open>calculateRespawnTime\<close>

text \<open>
  \<open>new Date(s)\<close> for a string \<open>s\<close> is the host's date parser (it depends on the process's
  time zone), so it is the parameter \<open>parseDate\<close>. The clock read by \<open>new Date()\<close> inside the
  function is the parameter \<open>now\<close>.
\<close>

text \<open>First \<open>if\<close>: \<open>respawn_time\<close> is truthy, parses, and is later than the clock.\<close>

definition respawnTimeIfFuture :: "(string \<Rightarrow> jsdate) \<Rightarrow> boss \<Rightarrow> int \<Rightarrow> jsdate option" where
  "respawnTimeIfFuture parseDate b now =
     (case respawn_time b of
        None \<Rightarrow> None
      | Some s \<Rightarrow>
          if s = [] then None
          else (case parseDate s of
                  InvalidDate \<Rightarrow> None
                | Date t \<Rightarrow> if t > now then Some (Date t) else None))"

text \<open>\<open>boss.respawn_hours * 60 * 60 * 1000\<close>, three products of doubles.\<close>

definition hoursToMs :: "rat \<Rightarrow> rat" where
  "hoursToMs h = roundDouble (roundDouble (roundDouble (h * 60) * 60) * 1000)"

text \<open>\<open>deathTime.getTime() + (boss.respawn_hours * 60 * 60 * 1000)\<close>.\<close>

definition deathPlusMs :: "int \<Rightarrow> rat \<Rightarrow> rat" where
  "deathPlusMs d h = roundDouble (of_int d + hoursToMs h)"

text \<open>
  Second \<open>if\<close>: \<open>time_of_death\<close> and \<open>respawn_hours\<close> are truthy and the death time parses.
  The log line of this branch calls \<open>respawnTime.toISOString()\<close> before the \<open>return\<close>, which
  raises \<open>RangeError\<close> when the date built from the sum is invalid. \<open>None\<close> says that the
  branch is not taken.
\<close>

definition deathTimePlusHours :: "(string \<Rightarrow> jsdate) \<Rightarrow> boss \<Rightarrow> (jsError + jsdate) option" where
  "deathTimePlusHours parseDate b =
     (case time_of_death b of
        None \<Rightarrow> None
      | Some ds \<Rightarrow>
          if ds = [] then None
          else (case respawn_hours b of
                  None \<Rightarrow> None
                | Some h \<Rightarrow>
                    if h = 0 then None
                    else (case parseDate ds of
                            InvalidDate \<Rightarrow> None
                          | Date d \<Rightarrow>
                              (case newDate (deathPlusMs d h) of
                                 InvalidDate \<Rightarrow> Some (Inl RangeError)
                               | Date t \<Rightarrow> Some (Inr (Date t))))))"

text \<open>Third \<open>if\<close>: \<open>respawn_time\<close> is truthy; the parsed date is returned unchecked.\<close>

definition respawnTimeFallback :: "(string \<Rightarrow> jsdate) \<Rightarrow> boss \<Rightarrow> jsdate option" where
  "respawnTimeFallback parseDate b =
     (case respawn_time b of
        None \<Rightarrow> None
      | Some s \<Rightarrow> if s = [] then None else Some (parseDate s))"

text \<open>
  The function raises (\<open>Inl\<close>) or returns (\<open>Inr\<close>): \<open>None\<close> for \<open>null\<close>, and a date object
  otherwise.
\<close>

definition calculateRespawnTime ::
  "(string \<Rightarrow> jsdate) \<Rightarrow> boss \<Rightarrow> int \<Rightarrow> jsError + jsdate option" where
  "calculateRespawnTime parseDate b now =
     (case respawnTimeIfFuture parseDate b now of
        Some respawnDate \<Rightarrow> Inr (Some respawnDate)
      | None \<Rightarrow>
          (case deathTimePlusHours parseDate b of
             Some (Inl e) \<Rightarrow> Inl e
           | Some (Inr respawnTime) \<Rightarrow> Inr (Some respawnTime)
           | None \<Rightarrow> Inr (respawnTimeFallback parseDate b)))"

section \<open>formatRespawnTime\<close>

text \<open>A non-negative whole number inside a template literal: its decimal digits.\<close>

definition digitChar :: "nat \<Rightarrow> char" where
  "digitChar n = ''0123456789'' ! (n mod 10)"

fun natToString :: "nat \<Rightarrow> string" where
  "natToString n =
     (if n < 10 then [digitChar n] else natToString (n div 10) @ [digitChar (n mod 10)])"

declare natToString.simps [simp del]

definition numberToString :: "int \<Rightarrow> string" where
  "numberToString i =
     (if i < 0 then CHR ''-'' # natToString (nat (- i)) else natToString (nat i))"

text \<open>
  The function reads the clock twice: inside \<open>calculateRespawnTime\<close> (\<open>now1\<close>) and again for
  the difference (\<open>now2\<close>). It has no \<open>try\<close>: what \<open>calculateRespawnTime\<close> raises, it raises.
  \<open>Math.floor\<close> of a quotient of whole numbers is \<open>div\<close>.
\<close>

definition formatRespawnTime ::
  "(string \<Rightarrow> jsdate) \<Rightarrow> boss \<Rightarrow> int \<Rightarrow> int \<Rightarrow> jsError + string" where
  "formatRespawnTime parseDate b now1 now2 =
     (case calculateRespawnTime parseDate b now1 of
        Inl e \<Rightarrow> Inl e
      | Inr None \<Rightarrow> Inr ''Unknown''
      | Inr (Some InvalidDate) \<Rightarrow> Inr ''Unknown''
      | Inr (Some (Date t)) \<Rightarrow>
          (let diffInMs = t - now2 in
           if diffInMs \<le> 0 then Inr ''Available Now!''
           else
             (let diffInSeconds = diffInMs div 1000;
                  diffInMinutes = diffInSeconds div 60;
                  diffInHours = diffInMinutes div 60;
                  diffInDays = diffInHours div 24
              in if diffInDays > 0 then
                   Inr (numberToString diffInDays @ ''d '' @
                        numberToString (diffInHours mod 24) @ ''h'')
                 else if diffInHours > 0 then
                   Inr (numberToString diffInHours @ ''h '' @
                        numberToString (diffInMinutes mod 60) @ ''m'')
                 else if diffInMinutes > 0 then
                   Inr (numberToString diffInMinutes @ ''m'')
                 else
                   Inr (numberToString diffInSeconds @ ''s''))))"

section \<open>The participation store\<close>

text \<open>
  A JavaScript \<open>Set\<close> keeps its members in insertion order without repetition: a list.
  \<open>add\<close> appends a new member and \<open>delete\<close> removes a member; neither raises.
\<close>

type_synonym userid = string
type_synonym msgid = string

definition Set_add :: "'a \<Rightarrow> 'a list \<Rightarrow> 'a list" where
  "Set_add x xs = (if x \<in> set xs then xs else xs @ [x])"

definition Set_delete :: "'a \<Rightarrow> 'a list \<Rightarrow> 'a list" where
  "Set_delete x xs = removeAll x xs"

record participation =
  participating :: "userid list"
  notParticipating :: "userid list"

definition emptyParticipation :: participation where
  "emptyParticipation = \<lparr>participating = [], notParticipating = []\<rparr>"

text \<open>
  The two module-level \<open>Map\<close>s, each an association list in insertion order:
  \<open>Map.set\<close> is \<open>AList.update\<close> (replace in place, or append), \<open>Map.get\<close> is \<open>map_of\<close>,
  \<open>Map.delete\<close> is \<open>AList.delete\<close>.
\<close>

record store =
  participationData :: "(msgid \<times> participation) list"
  messageBossData :: "(msgid \<times> boss) list"

definition emptyStore :: store where
  "emptyStore = \<lparr>participationData = [], messageBossData = []\<rparr>"

section \<open>Reaction handlers\<close>

text \<open>The two recognised reaction symbols, U+2705 and U+274C, as their UTF-8 bytes.\<close>

definition checkMark :: string where
  "checkMark = [CHR 0xE2, CHR 0x9C, CHR 0x85]"

definition crossMark :: string where
  "crossMark = [CHR 0xE2, CHR 0x9D, CHR 0x8C]"

text \<open>
  A handler returns the store it leaves behind and the call of \<open>updateParticipationEmbed\<close> it
  makes, if any (the message and the participation record it passes on). The reactions of
  bots never reach a handler, and the reaction is taken as fetched. Between its first
  statement and that call a handler does not wait, so it runs as one step.
\<close>

definition handleReactionAdd ::
  "msgid \<Rightarrow> string \<Rightarrow> userid \<Rightarrow> store \<Rightarrow> store \<times> (msgid \<times> participation) option" where
  "handleReactionAdd messageId emoji userId st =
     (if emoji \<noteq> checkMark \<and> emoji \<noteq> crossMark then (st, None)
      else
        (let pd = (if map_of (participationData st) messageId = None
                   then AList.update messageId emptyParticipation (participationData st)
                   else participationData st)
         in case map_of pd messageId of
              None \<Rightarrow> (st\<lparr>participationData := pd\<rparr>, None)
            | Some data \<Rightarrow>
                (let data' =
                   (if emoji = checkMark then
                      data\<lparr>notParticipating := Set_delete userId (notParticipating data),
                           participating := Set_add userId (participating data)\<rparr>
                    else
                      data\<lparr>participating := Set_delete userId (participating data),
                           notParticipating := Set_add userId (notParticipating data)\<rparr>)
                 in (st\<lparr>participationData := AList.update messageId data' pd\<rparr>,
                     Some (messageId, data')))))"

definition handleReactionRemove ::
  "msgid \<Rightarrow> string \<Rightarrow> userid \<Rightarrow> store \<Rightarrow> store \<times> (msgid \<times> participation) option" where
  "handleReactionRemove messageId emoji userId st =
     (if emoji \<noteq> checkMark \<and> emoji \<noteq> crossMark then (st, None)
      else
        (case map_of (participationData st) messageId of
           None \<Rightarrow> (st, None)
         | Some data \<Rightarrow>
             (let data' =
                (if emoji = checkMark then
                   data\<lparr>participating := Set_delete userId (participating data)\<rparr>
                 else
                   data\<lparr>notParticipating := Set_delete userId (notParticipating data)\<rparr>)
              in (st\<lparr>participationData := AList.update messageId data' (participationData st)\<rparr>,
                  Some (messageId, data')))))"

text \<open>A reaction event as the gateway delivers it, and a run of events.\<close>

datatype event =
  ReactionAdd msgid string userid
| ReactionRemove msgid string userid

fun applyEvent :: "store \<Rightarrow> event \<Rightarrow> store" where
  "applyEvent st (ReactionAdd m e u) = fst (handleReactionAdd m e u st)"
| "applyEvent st (ReactionRemove m e u) = fst (handleReactionRemove m e u st)"

definition applyEvents :: "store \<Rightarrow> event list \<Rightarrow> store" where
  "applyEvents st es = foldl applyEvent st es"

section \<open>Registration\<close>

text \<open>The two \<open>Map.set\<close> calls that close the send-boss route.\<close>

definition register :: "msgid \<Rightarrow> boss \<Rightarrow> store \<Rightarrow> store" where
  "register messageId processedBossData st =
     st\<lparr>participationData := AList.update messageId emptyParticipation (participationData st),
        messageBossData := AList.update messageId processedBossData (messageBossData st)\<rparr>"

section \<open>Participation rate\<close>

text \<open>
  The quotient of the two counts is rounded to a double, its product with \<open>100\<close> is rounded
  to a double, and \<open>Math.round\<close> takes the nearest whole number of that double, a half
  upwards. The counts and \<open>100\<close> are doubles themselves.
\<close>

definition Math_round :: "rat \<Rightarrow> int" where
  "Math_round x = \<lfloor>x + 1 / 2\<rfloor>"

definition participationRate :: "nat \<Rightarrow> nat \<Rightarrow> int" where
  "participationRate participatingCount notParticipatingCount =
     (let totalResponses = participatingCount + notParticipatingCount
      in if totalResponses > 0
         then Math_round
                (toDouble (toDouble (of_nat participatingCount / of_nat totalResponses) * 100))
         else 0)"

text \<open>The rate shown for a participation record: the counts are the sizes of its sets.\<close>

definition rateOf :: "participation \<Rightarrow> int" where
  "rateOf d = participationRate (length (participating d)) (length (notParticipating d))"

section \<open>The periodic update\<close>

text \<open>
  The timer callback returns at once while the bot is not connected. Otherwise it runs
  the redraw pass and then the clean-up pass. What the transport answers is a parameter:
  \<open>channelOk m\<close> says that fetching the channel gave a channel when the loop was at
  message \<open>m\<close> (no channel, or an exception caught by the loop's \<open>try\<close>, is \<open>False\<close>), and
  \<open>messageFound m\<close> that fetching the message gave a message. Handlers that run while the
  pass waits for the transport are not interleaved.
\<close>

text \<open>
  The redraw pass. It skips a message without participation record and a message whose
  channel is not fetched, drops the message that is not found from both maps, and redraws
  the others (\<open>updateParticipationEmbed\<close> changes no map and catches what it raises). Each
  loop visits every entry of \<open>messageBossData\<close> once, in insertion order, and deletes only
  the entry it is visiting, so it runs over the entries as they were before the loop.
\<close>

fun redrawLoop ::
  "(msgid \<Rightarrow> bool) \<Rightarrow> (msgid \<Rightarrow> bool) \<Rightarrow> (msgid \<times> boss) list \<Rightarrow> store \<Rightarrow> store" where
  "redrawLoop channelOk messageFound [] st = st"
| "redrawLoop channelOk messageFound ((messageId, bossData) # entries) st =
     redrawLoop channelOk messageFound entries
       (if map_of (participationData st) messageId = None then st
        else if \<not> channelOk messageId then st
        else if \<not> messageFound messageId
        then st\<lparr>messageBossData := AList.delete messageId (messageBossData st),
                participationData := AList.delete messageId (participationData st)\<rparr>
        else st)"

text \<open>
  \<open>respawnTime && respawnTime.getTime() < oneDayAgo.getTime()\<close>: a date object is truthy, and
  a comparison with \<open>NaN\<close> is false. \<open>now\<close> is the clock read before the loop; \<open>clk\<close> is the
  clock read inside \<open>calculateRespawnTime\<close> for this entry.
\<close>

definition getTimeLess :: "jsdate \<Rightarrow> jsdate \<Rightarrow> bool" where
  "getTimeLess a b = (case (a, b) of (Date x, Date y) \<Rightarrow> x < y | _ \<Rightarrow> False)"

definition isOld :: "(string \<Rightarrow> jsdate) \<Rightarrow> int \<Rightarrow> int \<Rightarrow> boss \<Rightarrow> jsError + bool" where
  "isOld parseDate now clk bossData =
     (let oneDayAgo = newDate (of_int (now - 24 * 60 * 60 * 1000))
      in case calculateRespawnTime parseDate bossData clk of
           Inl e \<Rightarrow> Inl e
         | Inr None \<Rightarrow> Inr False
         | Inr (Some respawnTime) \<Rightarrow> Inr (getTimeLess respawnTime oneDayAgo))"

text \<open>
  The clean-up pass. The loop has no \<open>try\<close>: when \<open>calculateRespawnTime\<close> raises for an entry
  the pass ends there, with the entries before it handled and the entries after it left
  alone. The result is the exception, if any, and the store left behind.
\<close>

fun cleanupLoop ::
  "(string \<Rightarrow> jsdate) \<Rightarrow> int \<Rightarrow> (msgid \<Rightarrow> int) \<Rightarrow> (msgid \<times> boss) list \<Rightarrow> store \<Rightarrow>
     jsError option \<times> store" where
  "cleanupLoop parseDate now clock [] st = (None, st)"
| "cleanupLoop parseDate now clock ((messageId, bossData) # entries) st =
     (case isOld parseDate now (clock messageId) bossData of
        Inl e \<Rightarrow> (Some e, st)
      | Inr old \<Rightarrow>
          cleanupLoop parseDate now clock entries
            (if old
             then st\<lparr>messageBossData := AList.delete messageId (messageBossData st),
                     participationData := AList.delete messageId (participationData st)\<rparr>
             else st))"

definition periodicUpdate ::
  "bool \<Rightarrow> (msgid \<Rightarrow> bool) \<Rightarrow> (msgid \<Rightarrow> bool) \<Rightarrow> (string \<Rightarrow> jsdate) \<Rightarrow> int \<Rightarrow> (msgid \<Rightarrow> int) \<Rightarrow>
     store \<Rightarrow> jsError option \<times> store" where
  "periodicUpdate isConnected channelOk messageFound parseDate now clock st =
     (if \<not> isConnected then (None, st)
      else
        (let redrawn = redrawLoop channelOk messageFound (messageBossData st) st
         in cleanupLoop parseDate now clock (messageBossData redrawn) redrawn))"

section \<open>The respawn policy as the specification words it\<close>

text \<open>
  The three conditions of the priority order. A field is present when it is truthy: a
  non-empty string, a number other than zero.
\<close>

definition futureRespawnTime :: "(string \<Rightarrow> jsdate) \<Rightarrow> boss \<Rightarrow> int \<Rightarrow> int \<Rightarrow> bool" where
  "futureRespawnTime parseDate b now t =
     (\<exists>s. respawn_time b = Some s \<and> s \<noteq> [] \<and> parseDate s = Date t \<and> now < t)"

definition deathAndHours :: "(string \<Rightarrow> jsdate) \<Rightarrow> boss \<Rightarrow> int \<Rightarrow> rat \<Rightarrow> bool" where
  "deathAndHours parseDate b d h =
     (\<exists>ds. time_of_death b = Some ds \<and> ds \<noteq> [] \<and> respawn_hours b = Some h \<and> h \<noteq> 0 \<and>
        parseDate ds = Date d)"




section \<open>Sample data\<close>

text \<open>
  The boss of the repository's respawn-time test script, and what the host's parser makes of
  its timestamp in a process whose time zone is UTC. Every other string counts as unparsable.
\<close>

definition sampleParse :: "string \<Rightarrow> jsdate" where
  "sampleParse s = (if s = ''2025-07-31T01:10:00'' then Date 1753924200000 else InvalidDate)"

definition timitris :: boss where
  "timitris =
     \<lparr>monster = ''Timitris'',
      respawn_time = Some ''2025-07-31T01:10:00'',
      time_of_death = Some ''2025-07-31T01:10:00'',
      respawn_hours = Some 8\<rparr>"

definition griffin :: boss where
  "griffin =
     \<lparr>monster = ''Griffin'', respawn_time = None, time_of_death = None, respawn_hours = None\<rparr>"

section \<open>The countdown as the specification words it\<close>

text \<open>
  The units of a positive difference, largest first; the specification's rendering shows
  the first two that are not zero, each as a number and its unit letter.
\<close>

fun unwords :: "string list \<Rightarrow> string" where
  "unwords [] = []"
| "unwords [w] = w"
| "unwords (w # ws) = w @ '' '' @ unwords ws"

definition spec_units :: "int \<Rightarrow> (int \<times> string) list" where
  "spec_units delta =
     [(delta div 86400000, ''d''), (delta div 3600000 mod 24, ''h''),
      (delta div 60000 mod 60, ''m''), (delta div 1000 mod 60, ''s'')]"

definition spec_countdown :: "int \<Rightarrow> string" where
  "spec_countdown delta =
     unwords (map (\<lambda>(v, u). numberToString v @ u)
       (take 2 (filter (\<lambda>(v, u). v \<noteq> 0) (spec_units delta))))"

section \<open>Registration as the specification words it\<close>

text \<open>
  The specification's \<open>register\<close> fails on an id that is already tracked and inserts the
  notification with empty participation sets otherwise.
\<close>

datatype error = DuplicateNotification

definition spec_register :: "msgid \<Rightarrow> boss \<Rightarrow> store \<Rightarrow> error + store" where
  "spec_register messageId snapshot st =
     (if map_of (participationData st) messageId \<noteq> None \<or>
         map_of (messageBossData st) messageId \<noteq> None
      then Inl DuplicateNotification
      else Inr (st\<lparr>participationData := participationData st @ [(messageId, emptyParticipation)],
                  messageBossData := messageBossData st @ [(messageId, snapshot)]\<rparr>))"

section \<open>Sample stores\<close>

text \<open>The sample boss posted as message \<open>N1\<close>, and the same after user \<open>U1\<close> reacted.\<close>

definition storeN1 :: store where
  "storeN1 = register ''N1'' timitris emptyStore"

definition storeN1U1 :: store where
  "storeN1U1 = fst (handleReactionAdd ''N1'' checkMark ''U1'' storeN1)"

section \<open>Evictions as the specification words them\<close>

text \<open>
  The respawn instant computed for a boss, with the clock at \<open>clk\<close>, is valid and lies more
  than twenty-four hours before \<open>now\<close>.
\<close>

definition respawnLongPast :: "(string \<Rightarrow> jsdate) \<Rightarrow> boss \<Rightarrow> int \<Rightarrow> int \<Rightarrow> bool" where
  "respawnLongPast parseDate b clk now =
     (\<exists>t. calculateRespawnTime parseDate b clk = Inr (Some (Date t)) \<and> t < now - 86400000)"

text \<open>
  The redraw pass reaches the fetch of a message and the transport does not find it: the
  message has a participation record, the channel is fetched, the message is not.
\<close>

definition messageLost :: "(msgid \<Rightarrow> bool) \<Rightarrow> (msgid \<Rightarrow> bool) \<Rightarrow> store \<Rightarrow> msgid \<Rightarrow> bool" where
  "messageLost channelOk messageFound st k \<longleftrightarrow>
     map_of (participationData st) k \<noteq> None \<and> channelOk k \<and> \<not> messageFound k"

section \<open>Well-formed stores\<close>

text \<open>A \<open>Map\<close> holds every key once.\<close>

definition distinctKeys :: "store \<Rightarrow> bool" where
  "distinctKeys st \<longleftrightarrow>
     distinct (map fst (participationData st)) \<and> distinct (map fst (messageBossData st))"

text \<open>No user id is in both sets of a participation record.\<close>

definition disjointRecord :: "participation \<Rightarrow> bool" where
  "disjointRecord r = (set (participating r) \<inter> set (notParticipating r) = {})"

section \<open>Double precision\<close>

lemma ilog2_bounds:
  "1 \<le> n \<Longrightarrow> 0 \<le> ilog2 n \<and> 2 ^ nat (ilog2 n) \<le> n \<and> n < 2 * 2 ^ nat (ilog2 n)"
proof (induction n rule: ilog2.induct)
  case (1 n)
  show ?case
  proof (cases "n < 2")
    case True
    with "1.prems" have "n = 1" by simp
    then show ?thesis by (simp add: ilog2.simps)
  next
    case False
    then have "1 \<le> n div 2" by simp
    from "1.IH" [OF False this]
    have ih: "0 \<le> ilog2 (n div 2)" "2 ^ nat (ilog2 (n div 2)) \<le> n div 2"
      "n div 2 < 2 * 2 ^ nat (ilog2 (n div 2))"
      by simp_all
    have eq: "ilog2 n = 1 + ilog2 (n div 2)"
      using False by (subst ilog2.simps) simp
    have nat_eq: "nat (ilog2 n) = Suc (nat (ilog2 (n div 2)))"
      using ih(1) by (simp add: eq nat_add_distrib)
    have "2 * 2 ^ nat (ilog2 (n div 2)) \<le> 2 * (n div 2)"
      using ih(2) by simp
    also have "\<dots> \<le> n" by simp
    finally have lo: "2 ^ nat (ilog2 n) \<le> n" by (simp add: nat_eq)
    have "n div 2 + 1 \<le> 2 * 2 ^ nat (ilog2 (n div 2))"
      using ih(3) by simp
    then have "2 * (n div 2 + 1) \<le> 2 * (2 * 2 ^ nat (ilog2 (n div 2)))"
      by simp
    moreover have "n < 2 * (n div 2 + 1)" by simp
    ultimately have hi: "n < 2 * 2 ^ nat (ilog2 n)" by (simp add: nat_eq)
    from ih(1) lo hi show ?thesis by (simp add: eq)
  qed
qed

lemma ilog2_powi:
  assumes "1 \<le> n"
  shows "(2 :: rat) powi ilog2 n \<le> of_int n" and "of_int n < 2 * (2 :: rat) powi ilog2 n"
    and "0 < (2 :: rat) powi ilog2 n"
proof -
  from ilog2_bounds [OF assms]
  have nn: "0 \<le> ilog2 n" and lo: "2 ^ nat (ilog2 n) \<le> n" and hi: "n < 2 * 2 ^ nat (ilog2 n)"
    by simp_all
  have p: "(2 :: rat) powi ilog2 n = of_int (2 ^ nat (ilog2 n))"
    using nn by (simp add: power_int_def)
  show "(2 :: rat) powi ilog2 n \<le> of_int n"
    unfolding p using lo by (simp only: of_int_le_iff)
  have "(of_int n :: rat) < of_int (2 * 2 ^ nat (ilog2 n))"
    using hi by (simp only: of_int_less_iff)
  then show "of_int n < 2 * (2 :: rat) powi ilog2 n"
    unfolding p by simp
  show "0 < (2 :: rat) powi ilog2 n"
    by simp
qed

text \<open>\<open>binade x\<close> is the exponent of the power of two at or below \<open>x\<close>.\<close>

lemma binade_bounds:
  assumes "0 < x"
  shows "2 powi binade x \<le> x" and "x < 2 powi (binade x + 1)"
proof -
  obtain a b where q: "quotient_of x = (a, b)"
    by (cases "quotient_of x")
  then have b: "0 < b" and x: "x = of_int a / of_int b"
    by (simp_all add: quotient_of_denom_pos quotient_of_div)
  with assms have a: "0 < a"
    by (simp add: zero_less_divide_iff)
  define A B :: rat where "A = 2 powi ilog2 a" and "B = 2 powi ilog2 b"
  have A: "A \<le> of_int a" "of_int a < 2 * A" "0 < A"
    using ilog2_powi [of a] a by (simp_all add: A_def)
  have B: "B \<le> of_int b" "of_int b < 2 * B" "0 < B"
    using ilog2_powi [of b] b by (simp_all add: B_def)
  have e: "(2 :: rat) powi (ilog2 a - ilog2 b) = A / B"
    by (simp add: power_int_diff A_def B_def)
  have e1: "(2 :: rat) powi (ilog2 a - ilog2 b - 1) = A / (2 * B)"
    by (simp add: power_int_diff A_def B_def)
  have e2: "(2 :: rat) powi (ilog2 a - ilog2 b + 1) = 2 * A / B"
    by (simp add: power_int_add A_def B_def power_int_diff)
  have bpos: "0 < (of_int b :: rat)" using b by simp
  have lo: "A / (2 * B) \<le> x"
  proof -
    have "A * of_int b \<le> A * (2 * B)"
      using A(3) B(2) by (simp add: mult_left_mono)
    also have "\<dots> \<le> of_int a * (2 * B)"
      using A(1) B(3) by (simp add: mult_right_mono)
    finally show ?thesis
      using B(3) bpos by (simp add: x field_simps)
  qed
  have hi: "x < 2 * A / B"
  proof -
    have "of_int a * B < 2 * A * B"
      using A(2) B(3) by simp
    also have "\<dots> \<le> 2 * A * of_int b"
      using A(3) B(1) by (simp add: mult_left_mono)
    finally show ?thesis
      using B(3) bpos by (simp add: x field_simps)
  qed
  show "2 powi binade x \<le> x"
    using lo by (simp add: binade_def q Let_def e e1)
  show "x < 2 powi (binade x + 1)"
    using hi by (auto simp add: binade_def q Let_def e e2 not_le)
qed

lemma roundHalfEven_error: "abs (of_int (roundHalfEven r) - r) \<le> 1 / 2"
proof -
  have "of_int \<lfloor>r\<rfloor> \<le> r" "r < of_int \<lfloor>r\<rfloor> + 1"
    by linarith+
  then show ?thesis
    by (auto simp: roundHalfEven_def Let_def)
qed

lemma toDouble_error:
  assumes "0 < x"
  shows "abs (toDouble x - x) \<le> x / 2 ^ 53"
proof -
  define ulp :: rat where "ulp = 2 powi (binade x - 52)"
  have ulp_pos: "0 < ulp" by (simp add: ulp_def)
  have ulp_eq: "ulp = 2 powi binade x / 2 ^ 52"
    by (simp add: ulp_def power_int_diff)
  have ulp_le: "ulp \<le> x / 2 ^ 52"
    unfolding ulp_eq using binade_bounds(1) [OF assms] by (simp add: divide_right_mono)
  have "toDouble x - x = (of_int (roundHalfEven (x / ulp)) - x / ulp) * ulp"
    using assms ulp_pos by (simp add: toDouble_def Let_def ulp_def [symmetric] field_simps)
  then have "abs (toDouble x - x) = abs (of_int (roundHalfEven (x / ulp)) - x / ulp) * ulp"
    using ulp_pos by (simp add: abs_mult)
  also have "\<dots> \<le> 1 / 2 * ulp"
    using roundHalfEven_error [of "x / ulp"] ulp_pos by (intro mult_right_mono) simp_all
  also have "\<dots> \<le> 1 / 2 * (x / 2 ^ 52)"
    using ulp_le by simp
  also have "\<dots> = x / 2 ^ 53" by simp
  finally show ?thesis .
qed

lemma roundHalfEven_of_int: "roundHalfEven (of_int n) = n"
  by (simp add: roundHalfEven_def Let_def)

lemma truncateNumber_of_int: "truncateNumber (of_int n) = n"
  by (simp add: truncateNumber_def)

lemma newDate_of_int:
  "newDate (of_int n) = (if abs n \<le> maxTime then Date n else InvalidDate)"
proof -
  have "abs (of_int n :: rat) \<le> of_int maxTime \<longleftrightarrow> abs n \<le> maxTime"
    by (metis of_int_abs of_int_le_iff)
  then show ?thesis
    by (simp add: newDate_def truncateNumber_of_int)
qed

text \<open>A positive whole number below \<open>2^53\<close> is a double.\<close>

lemma toDouble_of_int:
  assumes "0 < n" and "n < 2 ^ 53"
  shows "toDouble (of_int n) = of_int n"
proof -
  define x :: rat where "x = of_int n"
  have xpos: "0 < x" using assms(1) by (simp add: x_def)
  have xlt: "x < 2 powi 53"
  proof -
    have "(of_int n :: rat) < of_int (2 ^ 53)"
      using assms(2) by (simp only: of_int_less_iff)
    then show ?thesis by (simp add: x_def)
  qed
  have e: "binade x \<le> 52"
  proof (rule ccontr)
    assume "\<not> binade x \<le> 52"
    then have "53 \<le> binade x" by simp
    then have "(2 :: rat) powi 53 \<le> 2 powi binade x"
      by (intro power_int_increasing) simp_all
    also have "\<dots> \<le> x" by (rule binade_bounds(1) [OF xpos])
    finally show False using xlt by simp
  qed
  define k where "k = nat (52 - binade x)"
  have k: "52 - binade x = int k" using e by (simp add: k_def)
  have "(2 :: rat) powi (binade x - 52) = 2 powi (- (52 - binade x))"
    by simp
  also have "\<dots> = 1 / 2 ^ k"
    unfolding k by (simp add: power_int_minus_divide)
  finally have ulp: "(2 :: rat) powi (binade x - 52) = 1 / 2 ^ k" .
  have "x / (1 / 2 ^ k) = of_int (n * 2 ^ k)"
    by (simp add: x_def)
  then have "roundHalfEven (x / (1 / 2 ^ k)) = n * 2 ^ k"
    by (simp only: roundHalfEven_of_int)
  then have "toDouble x = of_int (n * 2 ^ k) * (1 / 2 ^ k)"
    using xpos by (simp add: toDouble_def Let_def ulp)
  then show ?thesis
    by (simp add: x_def)
qed

lemma roundDouble_of_int:
  assumes "abs n < 2 ^ 53"
  shows "roundDouble (of_int n) = of_int n"
proof -
  consider "n = 0" | "0 < n" | "n < 0" by linarith
  then show ?thesis
  proof cases
    case 1
    then show ?thesis by (simp add: roundDouble_def toDouble_def)
  next
    case 2
    with assms show ?thesis by (simp add: roundDouble_def toDouble_of_int)
  next
    case 3
    with assms have "0 < - n" "- n < 2 ^ 53" by simp_all
    then have "toDouble (of_int (- n)) = of_int (- n)"
      by (rule toDouble_of_int)
    with 3 show ?thesis by (simp add: roundDouble_def)
  qed
qed

text \<open>Whole hours give the exact number of milliseconds.\<close>

lemma hoursToMs_whole:
  assumes "abs (k * 3600000) < 2 ^ 53"
  shows "hoursToMs (of_int k) = of_int (k * 3600000)"
proof -
  have a: "abs (k * 60) < 2 ^ 53" and b: "abs (k * 60 * 60) < 2 ^ 53"
    and c: "abs (k * 60 * 60 * 1000) < 2 ^ 53"
    using assms by (simp_all add: abs_mult)
  have "roundDouble (of_int k * 60) = of_int (k * 60)"
    using roundDouble_of_int [OF a] by simp
  moreover have "roundDouble (of_int (k * 60) * 60) = of_int (k * 60 * 60)"
    using roundDouble_of_int [OF b] by simp
  moreover have "roundDouble (of_int (k * 60 * 60) * 1000) = of_int (k * 60 * 60 * 1000)"
    using roundDouble_of_int [OF c] by simp
  ultimately show ?thesis
    by (simp add: hoursToMs_def)
qed

lemma deathPlusMs_whole:
  assumes "abs (k * 3600000) < 2 ^ 53" and "abs (d + k * 3600000) \<le> maxTime"
  shows "deathPlusMs d (of_int k) = of_int (d + k * 3600000)"
    and "newDate (deathPlusMs d (of_int k)) = Date (d + k * 3600000)"
proof -
  have "abs (d + k * 3600000) < 2 ^ 53"
    using assms(2) by (simp add: maxTime_def)
  then have "roundDouble (of_int (d + k * 3600000)) = of_int (d + k * 3600000)"
    by (rule roundDouble_of_int)
  then show s: "deathPlusMs d (of_int k) = of_int (d + k * 3600000)"
    by (simp add: deathPlusMs_def hoursToMs_whole [OF assms(1)])
  show "newDate (deathPlusMs d (of_int k)) = Date (d + k * 3600000)"
    by (simp only: s newDate_of_int assms(2) if_True)
qed





section \<open>Properties of calculateRespawnTime\<close>

lemma respawnTimeIfFuture_Some:
  "futureRespawnTime parseDate b now t \<Longrightarrow> respawnTimeIfFuture parseDate b now = Some (Date t)"
  by (auto simp: futureRespawnTime_def respawnTimeIfFuture_def)

lemma respawnTimeIfFuture_None:
  "(\<forall>t. \<not> futureRespawnTime parseDate b now t) \<Longrightarrow> respawnTimeIfFuture parseDate b now = None"
  by (auto simp: futureRespawnTime_def respawnTimeIfFuture_def split: option.splits jsdate.splits)


lemma deathTimePlusHours_raises:
  "deathAndHours parseDate b d h \<Longrightarrow> newDate (deathPlusMs d h) = InvalidDate \<Longrightarrow>
   deathTimePlusHours parseDate b = Some (Inl RangeError)"
  by (auto simp: deathAndHours_def deathTimePlusHours_def)



lemma respawnTimeFallback_absent:
  "respawn_time b = None \<or> respawn_time b = Some [] \<Longrightarrow> respawnTimeFallback parseDate b = None"
  by (auto simp: respawnTimeFallback_def)

lemma respawnTimeIfFuture_absent:
  "respawn_time b = None \<or> respawn_time b = Some [] \<Longrightarrow> respawnTimeIfFuture parseDate b now = None"
  by (auto simp: respawnTimeIfFuture_def)

lemma respawnTimeIfFuture_hours:
  "respawnTimeIfFuture parseDate (b\<lparr>respawn_hours := h\<rparr>) now = respawnTimeIfFuture parseDate b now"
  by (simp add: respawnTimeIfFuture_def)

lemma respawnTimeFallback_hours:
  "respawnTimeFallback parseDate (b\<lparr>respawn_hours := h\<rparr>) = respawnTimeFallback parseDate b"
  by (simp add: respawnTimeFallback_def)

lemma deathTimePlusHours_respawn_time:
  "deathTimePlusHours parseDate (b\<lparr>respawn_time := r\<rparr>) = deathTimePlusHours parseDate b"
  by (simp add: deathTimePlusHours_def cong: option.case_cong if_cong)

lemma calculate_future:
  "futureRespawnTime parseDate b now t \<Longrightarrow>
   calculateRespawnTime parseDate b now = Inr (Some (Date t))"
  by (simp add: calculateRespawnTime_def respawnTimeIfFuture_Some)



text \<open>
  When the sum leaves the range of a date, the log line of the second branch raises
  before the branch returns.
\<close>

lemma calculate_death_out_of_range:
  "(\<forall>t'. \<not> futureRespawnTime parseDate b now t') \<Longrightarrow> deathAndHours parseDate b d h \<Longrightarrow>
   newDate (deathPlusMs d h) = InvalidDate \<Longrightarrow>
   calculateRespawnTime parseDate b now = Inl RangeError"
  by (simp add: calculateRespawnTime_def respawnTimeIfFuture_None deathTimePlusHours_raises)



text \<open>
  The fallback does not check what it parsed: a non-empty \<open>respawn_time\<close> that does not parse
  comes back as an invalid date, not as \<open>null\<close>, when the death-time branch does not apply.
\<close>

lemma calculate_fallback_unchecked:
  "respawn_time b = Some s \<Longrightarrow> s \<noteq> [] \<Longrightarrow> parseDate s = InvalidDate \<Longrightarrow>
   deathTimePlusHours parseDate b = None \<Longrightarrow>
   calculateRespawnTime parseDate b now = Inr (Some InvalidDate)"
  by (simp add: calculateRespawnTime_def respawnTimeIfFuture_def respawnTimeFallback_def)

text \<open>The sample boss: eight hours after its death.\<close>

lemma sample_death_plus_hours:
  "newDate (deathPlusMs 1753924200000 8) = Date 1753953000000"
  using deathPlusMs_whole(2) [of 8 1753924200000] by (simp add: maxTime_def)

lemma sample_huge_hours:
  "newDate (deathPlusMs 1753924200000 3000000000) = InvalidDate"
  by code_simp





text \<open>
  C10: a falsy timing field counts as absent. With \<open>respawn_hours\<close> equal to \<open>0\<close> the
  death-time branch is skipped whatever the death time is, so the result is that of the
  first branch or else of the fallback, and it is the result for the boss without
  \<open>respawn_hours\<close>. With \<open>respawn_time\<close> the empty string neither the first branch nor the
  fallback returns, so the result is that of the death-time branch, and it is the result
  for the boss without \<open>respawn_time\<close>.
\<close>

theorem falsy_timing_fields_are_absent:
  "(respawn_hours b = Some 0 \<longrightarrow>
      deathTimePlusHours parseDate b = None \<and>
      calculateRespawnTime parseDate b now =
        Inr (case respawnTimeIfFuture parseDate b now of
               Some d \<Rightarrow> Some d
             | None \<Rightarrow> respawnTimeFallback parseDate b) \<and>
      calculateRespawnTime parseDate b now =
        calculateRespawnTime parseDate (b\<lparr>respawn_hours := None\<rparr>) now) \<and>
   (respawn_time b = Some [] \<longrightarrow>
      respawnTimeIfFuture parseDate b now = None \<and>
      respawnTimeFallback parseDate b = None \<and>
      calculateRespawnTime parseDate b now =
        (case deathTimePlusHours parseDate b of
           None \<Rightarrow> Inr None
         | Some (Inl e) \<Rightarrow> Inl e
         | Some (Inr d) \<Rightarrow> Inr (Some d)) \<and>
      calculateRespawnTime parseDate b now =
        calculateRespawnTime parseDate (b\<lparr>respawn_time := None\<rparr>) now)"
proof (intro conjI impI)
  assume h: "respawn_hours b = Some 0"
  then show d: "deathTimePlusHours parseDate b = None"
    by (simp add: deathTimePlusHours_def split: option.splits)
  then show "calculateRespawnTime parseDate b now =
      Inr (case respawnTimeIfFuture parseDate b now of
             Some d \<Rightarrow> Some d
           | None \<Rightarrow> respawnTimeFallback parseDate b)"
    by (simp add: calculateRespawnTime_def split: option.splits)
  have "deathTimePlusHours parseDate (b\<lparr>respawn_hours := None\<rparr>) = None"
    by (simp add: deathTimePlusHours_def split: option.splits)
  with d show "calculateRespawnTime parseDate b now =
      calculateRespawnTime parseDate (b\<lparr>respawn_hours := None\<rparr>) now"
    by (simp add: calculateRespawnTime_def respawnTimeIfFuture_hours respawnTimeFallback_hours
        cong: option.case_cong)
next
  assume h: "respawn_time b = Some []"
  then show f: "respawnTimeIfFuture parseDate b now = None"
    by (simp add: respawnTimeIfFuture_def)
  from h show g: "respawnTimeFallback parseDate b = None"
    by (simp add: respawnTimeFallback_def)
  from f g show "calculateRespawnTime parseDate b now =
      (case deathTimePlusHours parseDate b of
         None \<Rightarrow> Inr None
       | Some (Inl e) \<Rightarrow> Inl e
       | Some (Inr d) \<Rightarrow> Inr (Some d))"
    by (simp add: calculateRespawnTime_def split: option.splits sum.splits)
  from f g show "calculateRespawnTime parseDate b now =
      calculateRespawnTime parseDate (b\<lparr>respawn_time := None\<rparr>) now"
    by (simp add: calculateRespawnTime_def respawnTimeIfFuture_absent respawnTimeFallback_absent
        deathTimePlusHours_respawn_time cong: option.case_cong)
qed

text \<open>
  The sample boss with \<open>respawn_hours\<close> \<open>0\<close> falls back to its past \<open>respawn_time\<close>; with an
  empty \<open>respawn_time\<close> it gets the death time plus eight hours even before that time.
\<close>

theorem falsy_timing_fields_are_absent_witness:
  "respawn_hours (timitris\<lparr>respawn_hours := Some 0\<rparr>) = Some 0 \<and>
   deathTimePlusHours sampleParse (timitris\<lparr>respawn_hours := Some 0\<rparr>) = None \<and>
   calculateRespawnTime sampleParse (timitris\<lparr>respawn_hours := Some 0\<rparr>) 1753924200000
     = Inr (Some (Date 1753924200000)) \<and>
   respawn_time (timitris\<lparr>respawn_time := Some []\<rparr>) = Some [] \<and>
   calculateRespawnTime sampleParse (timitris\<lparr>respawn_time := Some []\<rparr>) 0
     = Inr (Some (Date 1753953000000))"
proof -
  have h0: "respawn_hours (timitris\<lparr>respawn_hours := Some 0\<rparr>) = Some 0"
    by simp
  have e0: "respawn_time (timitris\<lparr>respawn_time := Some []\<rparr>) = Some []"
    by simp
  note a = falsy_timing_fields_are_absent
    [of "timitris\<lparr>respawn_hours := Some 0\<rparr>" sampleParse 1753924200000,
      THEN conjunct1, rule_format, OF h0]
  note b = falsy_timing_fields_are_absent
    [of "timitris\<lparr>respawn_time := Some []\<rparr>" sampleParse 0,
      THEN conjunct2, rule_format, OF e0]
  note a1 = a [THEN conjunct1]
  have a2: "calculateRespawnTime sampleParse (timitris\<lparr>respawn_hours := Some 0\<rparr>) 1753924200000
      = Inr (Some (Date 1753924200000))"
    using a [THEN conjunct2, THEN conjunct1]
    by (simp add: respawnTimeIfFuture_def respawnTimeFallback_def sampleParse_def timitris_def)
  have b1: "calculateRespawnTime sampleParse (timitris\<lparr>respawn_time := Some []\<rparr>) 0
      = Inr (Some (Date 1753953000000))"
    using b [THEN conjunct2, THEN conjunct2, THEN conjunct1]
    by (simp add: deathTimePlusHours_def sampleParse_def timitris_def sample_death_plus_hours)
  show ?thesis
    by (intro conjI) (fact h0 a1 a2 e0 b1)+
qed

section \<open>Properties of formatRespawnTime\<close>

lemma ends_with_h: "xs @ ''h'' \<noteq> ''Available Now!''"
proof
  assume "xs @ ''h'' = ''Available Now!''"
  then have "last (xs @ ''h'') = last ''Available Now!''" by simp
  then show False by simp
qed

lemma ends_with_m: "xs @ ''m'' \<noteq> ''Available Now!''"
proof
  assume "xs @ ''m'' = ''Available Now!''"
  then have "last (xs @ ''m'') = last ''Available Now!''" by simp
  then show False by simp
qed

lemma ends_with_s: "xs @ ''s'' \<noteq> ''Available Now!''"
proof
  assume "xs @ ''s'' = ''Available Now!''"
  then have "last (xs @ ''s'') = last ''Available Now!''" by simp
  then show False by simp
qed

lemma countdown_not_available:
  "xs @ ''d '' @ ys @ ''h'' \<noteq> ''Available Now!''"
  "xs @ ''h '' @ ys @ ''m'' \<noteq> ''Available Now!''"
  using ends_with_h [of "xs @ ''d '' @ ys"] ends_with_m [of "xs @ ''h '' @ ys"] by simp_all

lemma format_null: "calculateRespawnTime parseDate b now1 = Inr None \<Longrightarrow>
    formatRespawnTime parseDate b now1 now2 = Inr ''Unknown''"
  by (simp add: formatRespawnTime_def)

lemma format_invalid: "calculateRespawnTime parseDate b now1 = Inr (Some InvalidDate) \<Longrightarrow>
    formatRespawnTime parseDate b now1 now2 = Inr ''Unknown''"
  by (simp add: formatRespawnTime_def)

text \<open>What \<open>calculateRespawnTime\<close> raises, \<open>formatRespawnTime\<close> raises.\<close>

lemma format_raises: "calculateRespawnTime parseDate b now1 = Inl e \<Longrightarrow>
    formatRespawnTime parseDate b now1 now2 = Inl e"
  by (simp add: formatRespawnTime_def)

lemma format_passed:
  "calculateRespawnTime parseDate b now1 = Inr (Some (Date t)) \<Longrightarrow> t - now2 \<le> 0 \<Longrightarrow>
    formatRespawnTime parseDate b now1 now2 = Inr ''Available Now!''"
  by (simp add: formatRespawnTime_def)

lemma div_units:
  fixes delta :: int
  shows "delta div 1000 div 60 = delta div 60000"
    and "delta div 60000 div 60 = delta div 3600000"
    and "delta div 3600000 div 24 = delta div 86400000"
  by (simp_all add: zdiv_zmult2_eq [symmetric])

lemma format_countdown:
  assumes "calculateRespawnTime parseDate b now1 = Inr (Some (Date t))" and "0 < t - now2"
  shows "formatRespawnTime parseDate b now1 now2 =
     Inr (if 86400000 \<le> t - now2 then
            numberToString ((t - now2) div 86400000) @ ''d '' @
            numberToString ((t - now2) div 3600000 mod 24) @ ''h''
          else if 3600000 \<le> t - now2 then
            numberToString ((t - now2) div 3600000) @ ''h '' @
            numberToString ((t - now2) div 60000 mod 60) @ ''m''
          else if 60000 \<le> t - now2 then numberToString ((t - now2) div 60000) @ ''m''
          else numberToString ((t - now2) div 1000) @ ''s'')"
proof -
  define delta where "delta = t - now2"
  have pos: "0 < delta" using assms(2) by (simp add: delta_def)
  have d: "0 < delta div 86400000 \<longleftrightarrow> 86400000 \<le> delta"
    using pos by (simp add: pos_imp_zdiv_pos_iff)
  have h: "0 < delta div 3600000 \<longleftrightarrow> 3600000 \<le> delta"
    using pos by (simp add: pos_imp_zdiv_pos_iff)
  have m: "0 < delta div 60000 \<longleftrightarrow> 60000 \<le> delta"
    using pos by (simp add: pos_imp_zdiv_pos_iff)
  have "formatRespawnTime parseDate b now1 now2 =
     Inr (if 0 < delta div 86400000 then
            numberToString (delta div 86400000) @ ''d '' @
            numberToString (delta div 3600000 mod 24) @ ''h''
          else if 0 < delta div 3600000 then
            numberToString (delta div 3600000) @ ''h '' @
            numberToString (delta div 60000 mod 60) @ ''m''
          else if 0 < delta div 60000 then numberToString (delta div 60000) @ ''m''
          else numberToString (delta div 1000) @ ''s'')"
    using assms pos by (simp add: formatRespawnTime_def Let_def div_units delta_def)
  then show ?thesis
    by (simp only: d h m) (simp only: delta_def)
qed

lemma available_iff:
  "formatRespawnTime parseDate b now1 now2 = Inr ''Available Now!'' \<longleftrightarrow>
     (\<exists>t. calculateRespawnTime parseDate b now1 = Inr (Some (Date t)) \<and> t \<le> now2)"
proof (cases "calculateRespawnTime parseDate b now1")
  case (Inl e)
  then show ?thesis by (simp add: format_raises)
next
  case (Inr r)
  show ?thesis
  proof (cases r)
    case None
    with Inr show ?thesis by (simp add: format_null)
  next
    case (Some d)
    show ?thesis
    proof (cases d)
      case InvalidDate
      with Inr Some show ?thesis by (simp add: format_invalid)
    next
      case (Date t)
      show ?thesis
      proof (cases "t - now2 \<le> 0")
        case True
        with Inr Some Date show ?thesis by (simp add: format_passed)
      next
        case False
        then have "0 < t - now2" by simp
        from format_countdown [OF Inr [unfolded Some Date] this] False
        show ?thesis
          by (simp add: Inr Some Date countdown_not_available ends_with_m ends_with_s)
      qed
    qed
  qed
qed

lemma respawnTimeIfFuture_later:
  "respawnTimeIfFuture parseDate b now = None \<Longrightarrow> now \<le> now' \<Longrightarrow>
   respawnTimeIfFuture parseDate b now' = None"
  by (auto simp: respawnTimeIfFuture_def split: option.splits jsdate.splits if_splits)

lemma respawnTimeIfFuture_is_future:
  "respawnTimeIfFuture parseDate b now = Some d \<Longrightarrow> \<exists>t. d = Date t \<and> now < t"
  by (simp add: respawnTimeIfFuture_def split: option.splits jsdate.splits if_splits) metis

text \<open>Once the first branch is not taken, the answer no longer depends on the clock.\<close>

lemma calculate_later:
  assumes "respawnTimeIfFuture parseDate b now = None" and "now \<le> now'"
  shows "calculateRespawnTime parseDate b now' = calculateRespawnTime parseDate b now"
  using assms respawnTimeIfFuture_later [OF assms] by (simp add: calculateRespawnTime_def)

lemma available_stays_general:
  assumes "formatRespawnTime parseDate b first1 first2 = Inr ''Available Now!''"
    and "\<forall>t. \<not> futureRespawnTime parseDate b first1 t"
    and "first1 \<le> later1" and "first2 \<le> later2"
  shows "formatRespawnTime parseDate b later1 later2 = Inr ''Available Now!''"
proof -
  from assms(1) obtain t
    where t: "calculateRespawnTime parseDate b first1 = Inr (Some (Date t))" "t \<le> first2"
    by (auto simp: available_iff)
  have "respawnTimeIfFuture parseDate b first1 = None"
    using assms(2) by (rule respawnTimeIfFuture_None)
  then have "calculateRespawnTime parseDate b later1 = calculateRespawnTime parseDate b first1"
    using assms(3) by (rule calculate_later)
  with t have "calculateRespawnTime parseDate b later1 = Inr (Some (Date t))"
    by simp
  moreover have "t \<le> later2" using t(2) assms(4) by simp
  ultimately show ?thesis by (auto simp: available_iff)
qed

text \<open>A call whose two clock reads agree cannot have taken the first branch.\<close>

lemma available_not_future:
  assumes "formatRespawnTime parseDate b now now = Inr ''Available Now!''"
  shows "\<forall>t. \<not> futureRespawnTime parseDate b now t"
proof (intro allI notI)
  fix r
  assume "futureRespawnTime parseDate b now r"
  then have "calculateRespawnTime parseDate b now = Inr (Some (Date r))" and "now < r"
    by (auto simp: calculate_future futureRespawnTime_def)
  moreover from assms obtain t
    where "calculateRespawnTime parseDate b now = Inr (Some (Date t))" "t \<le> now"
    by (auto simp: available_iff)
  ultimately show False by simp
qed

lemma available_stays:
  assumes "formatRespawnTime parseDate b now now = Inr ''Available Now!''"
    and "now \<le> later1" and "later1 \<le> later2"
  shows "formatRespawnTime parseDate b later1 later2 = Inr ''Available Now!''"
proof -
  from assms(2,3) have "now \<le> later2" by simp
  with available_stays_general [OF assms(1) available_not_future [OF assms(1)] assms(2)]
  show ?thesis .
qed

text \<open>
  C5, as stated: once the function answers \<open>Available Now!\<close>, every later call does. The
  function reads the clock twice. On the sample boss, a call that reads the clock one
  millisecond before \<open>respawn_time\<close> and then at \<open>respawn_time\<close> answers \<open>Available Now!\<close>; for
  the next call \<open>respawn_time\<close> has passed, the death time plus eight hours takes its place,
  and the answer is a countdown.
\<close>

theorem formatRespawnTime_reverses_counterexample:
  "formatRespawnTime sampleParse timitris 1753924199999 1753924200000 = Inr ''Available Now!'' \<and>
   (1753924199999 :: int) \<le> 1753924200000 \<and>
   formatRespawnTime sampleParse timitris 1753924200000 1753924200000 = Inr ''8h 0m''"
  by (simp add: formatRespawnTime_def calculateRespawnTime_def respawnTimeIfFuture_def
      deathTimePlusHours_def sample_death_plus_hours sampleParse_def timitris_def
      numberToString_def natToString.simps digitChar_def Let_def)

text \<open>
  C5, amended: for a fixed boss, once \<open>formatRespawnTime\<close> answers \<open>Available Now!\<close> in a call
  for which \<open>respawn_time\<close> was not in the future at the first clock read, it answers
  \<open>Available Now!\<close> in every later call. A call whose two clock reads return the same
  instant is such a call.
\<close>

theorem formatRespawnTime_available_monotone:
  "(formatRespawnTime parseDate b first1 first2 = Inr ''Available Now!'' \<and>
    (\<forall>t. \<not> futureRespawnTime parseDate b first1 t) \<and>
    first1 \<le> later1 \<and> first2 \<le> later2 \<longrightarrow>
      formatRespawnTime parseDate b later1 later2 = Inr ''Available Now!'') \<and>
   (formatRespawnTime parseDate b now now = Inr ''Available Now!'' \<and>
    now \<le> later1 \<and> later1 \<le> later2 \<longrightarrow>
      formatRespawnTime parseDate b later1 later2 = Inr ''Available Now!'')"
proof (intro conjI impI)
  assume h: "formatRespawnTime parseDate b first1 first2 = Inr ''Available Now!'' \<and>
    (\<forall>t. \<not> futureRespawnTime parseDate b first1 t) \<and> first1 \<le> later1 \<and> first2 \<le> later2"
  show "formatRespawnTime parseDate b later1 later2 = Inr ''Available Now!''"
    by (rule available_stays_general [OF h [THEN conjunct1] h [THEN conjunct2, THEN conjunct1]
          h [THEN conjunct2, THEN conjunct2, THEN conjunct1]
          h [THEN conjunct2, THEN conjunct2, THEN conjunct2]])
next
  assume h: "formatRespawnTime parseDate b now now = Inr ''Available Now!'' \<and>
    now \<le> later1 \<and> later1 \<le> later2"
  show "formatRespawnTime parseDate b later1 later2 = Inr ''Available Now!''"
    by (rule available_stays [OF h [THEN conjunct1] h [THEN conjunct2, THEN conjunct1]
          h [THEN conjunct2, THEN conjunct2]])
qed

text \<open>
  The sample boss eight hours after its death, read twice a second apart, and a call an
  hour later; and the same with one read per call.
\<close>

theorem formatRespawnTime_available_monotone_witness:
  "formatRespawnTime sampleParse timitris 1753953000000 1753953001000 = Inr ''Available Now!'' \<and>
   (\<forall>t. \<not> futureRespawnTime sampleParse timitris 1753953000000 t) \<and>
   (1753953000000 :: int) \<le> 1753956600000 \<and> (1753953001000 :: int) \<le> 1753956600500 \<and>
   formatRespawnTime sampleParse timitris 1753956600000 1753956600500 = Inr ''Available Now!'' \<and>
   formatRespawnTime sampleParse timitris 1753953000000 1753953000000 = Inr ''Available Now!'' \<and>
   (1753956600000 :: int) \<le> 1753956600500 \<and>
   formatRespawnTime sampleParse timitris 1753956600000 1753956600500 = Inr ''Available Now!''"
proof -
  note defs = formatRespawnTime_def calculateRespawnTime_def respawnTimeIfFuture_def
    deathTimePlusHours_def sample_death_plus_hours sampleParse_def timitris_def
  have a: "formatRespawnTime sampleParse timitris 1753953000000 1753953001000
      = Inr ''Available Now!''"
    by (simp add: defs)
  have nf: "\<forall>t. \<not> futureRespawnTime sampleParse timitris 1753953000000 t"
    by (simp add: futureRespawnTime_def sampleParse_def timitris_def)
  have le: "(1753953000000 :: int) \<le> 1753956600000" "(1753953001000 :: int) \<le> 1753956600500"
    "(1753956600000 :: int) \<le> 1753956600500"
    by simp_all
  have b: "formatRespawnTime sampleParse timitris 1753953000000 1753953000000
      = Inr ''Available Now!''"
    by (simp add: defs)
  note w1 = formatRespawnTime_available_monotone
    [of sampleParse timitris 1753953000000 1753953001000 1753956600000 1753956600500,
      THEN conjunct1, rule_format, OF conjI, OF a conjI, OF nf conjI, OF le(1) le(2)]
  note w2 = formatRespawnTime_available_monotone
    [of sampleParse timitris _ _ 1753956600000 1753956600500 1753953000000,
      THEN conjunct2, rule_format, OF conjI, OF b conjI, OF le(1) le(3)]
  show ?thesis
    by (intro conjI) (fact a nf le w1 b w2)+
qed

text \<open>
  C6, as stated: a positive difference is rendered by its two largest units that are not
  zero. Five and a half minutes before the sample boss respawns the function answers
  \<open>5m\<close>, without the thirty seconds; a whole day before it answers \<open>1d 0h\<close>, with a unit
  that is zero.
\<close>

theorem formatRespawnTime_two_units_counterexample:
  "formatRespawnTime sampleParse timitris 1753923870000 1753923870000 = Inr ''5m'' \<and>
   spec_countdown (1753924200000 - 1753923870000) = ''5m 30s'' \<and>
   formatRespawnTime sampleParse timitris 1753837800000 1753837800000 = Inr ''1d 0h'' \<and>
   spec_countdown (1753924200000 - 1753837800000) = ''1d''"
  by (simp add: formatRespawnTime_def calculateRespawnTime_def respawnTimeIfFuture_def
      sampleParse_def timitris_def spec_countdown_def spec_units_def
      numberToString_def natToString.simps digitChar_def Let_def)

text \<open>
  C6, amended: when \<open>calculateRespawnTime\<close> returns \<open>null\<close> or an invalid date the answer is
  \<open>Unknown\<close>; when it returns a valid date and the difference to the clock is zero or
  negative the answer is \<open>Available Now!\<close>; when the difference is positive the answer
  shows the largest unit of days, hours, minutes and seconds that is not zero, in whole
  units: days are followed by the hours of the day and hours by the minutes of the hour,
  also when those are zero; minutes and seconds stand alone.
\<close>

theorem formatRespawnTime_postcondition:
  "(calculateRespawnTime parseDate b now1 = Inr None \<or>
    calculateRespawnTime parseDate b now1 = Inr (Some InvalidDate) \<longrightarrow>
      formatRespawnTime parseDate b now1 now2 = Inr ''Unknown'') \<and>
   (calculateRespawnTime parseDate b now1 = Inr (Some (Date t)) \<and> t - now2 \<le> 0 \<longrightarrow>
      formatRespawnTime parseDate b now1 now2 = Inr ''Available Now!'') \<and>
   (calculateRespawnTime parseDate b now1 = Inr (Some (Date t)) \<and> 0 < t - now2 \<longrightarrow>
      formatRespawnTime parseDate b now1 now2 =
        Inr (if 86400000 \<le> t - now2 then
               numberToString ((t - now2) div 86400000) @ ''d '' @
               numberToString ((t - now2) div 3600000 mod 24) @ ''h''
             else if 3600000 \<le> t - now2 then
               numberToString ((t - now2) div 3600000) @ ''h '' @
               numberToString ((t - now2) div 60000 mod 60) @ ''m''
             else if 60000 \<le> t - now2 then numberToString ((t - now2) div 60000) @ ''m''
             else numberToString ((t - now2) div 1000) @ ''s''))"
proof (intro conjI impI)
  assume "calculateRespawnTime parseDate b now1 = Inr None \<or>
    calculateRespawnTime parseDate b now1 = Inr (Some InvalidDate)"
  then show "formatRespawnTime parseDate b now1 now2 = Inr ''Unknown''"
    using format_null format_invalid by blast
next
  assume h: "calculateRespawnTime parseDate b now1 = Inr (Some (Date t)) \<and> t - now2 \<le> 0"
  show "formatRespawnTime parseDate b now1 now2 = Inr ''Available Now!''"
    by (rule format_passed [OF h [THEN conjunct1] h [THEN conjunct2]])
next
  assume h: "calculateRespawnTime parseDate b now1 = Inr (Some (Date t)) \<and> 0 < t - now2"
  show "formatRespawnTime parseDate b now1 now2 =
        Inr (if 86400000 \<le> t - now2 then
               numberToString ((t - now2) div 86400000) @ ''d '' @
               numberToString ((t - now2) div 3600000 mod 24) @ ''h''
             else if 3600000 \<le> t - now2 then
               numberToString ((t - now2) div 3600000) @ ''h '' @
               numberToString ((t - now2) div 60000 mod 60) @ ''m''
             else if 60000 \<le> t - now2 then numberToString ((t - now2) div 60000) @ ''m''
             else numberToString ((t - now2) div 1000) @ ''s'')"
    by (rule format_countdown [OF h [THEN conjunct1] h [THEN conjunct2]])
qed

text \<open>
  A boss without timing fields and one whose \<open>respawn_time\<close> does not parse; the sample boss
  without \<open>respawn_hours\<close> at its \<open>respawn_time\<close>; the sample boss at its \<open>respawn_time\<close>, eight
  hours before the instant computed from its death.
\<close>

theorem formatRespawnTime_postcondition_witness:
  "calculateRespawnTime sampleParse griffin 0 = Inr None \<and>
   formatRespawnTime sampleParse griffin 0 0 = Inr ''Unknown'' \<and>
   calculateRespawnTime sampleParse (griffin\<lparr>respawn_time := Some ''soon''\<rparr>) 0
     = Inr (Some InvalidDate) \<and>
   formatRespawnTime sampleParse (griffin\<lparr>respawn_time := Some ''soon''\<rparr>) 0 0 = Inr ''Unknown'' \<and>
   calculateRespawnTime sampleParse (timitris\<lparr>respawn_hours := None\<rparr>) 1753924200000
     = Inr (Some (Date 1753924200000)) \<and>
   formatRespawnTime sampleParse (timitris\<lparr>respawn_hours := None\<rparr>) 1753924200000 1753924200000
     = Inr ''Available Now!'' \<and>
   calculateRespawnTime sampleParse timitris 1753924200000 = Inr (Some (Date 1753953000000)) \<and>
   formatRespawnTime sampleParse timitris 1753924200000 1753924200000 = Inr ''8h 0m''"
proof -
  note defs = calculateRespawnTime_def respawnTimeIfFuture_def deathTimePlusHours_def
    respawnTimeFallback_def sample_death_plus_hours sampleParse_def timitris_def griffin_def
  have n: "calculateRespawnTime sampleParse griffin 0 = Inr None"
    by (simp add: defs)
  have un: "formatRespawnTime sampleParse griffin 0 0 = Inr ''Unknown''"
    using formatRespawnTime_postcondition
      [of sampleParse griffin 0 0 0, THEN conjunct1, rule_format, OF disjI1, OF n] .
  have i: "calculateRespawnTime sampleParse (griffin\<lparr>respawn_time := Some ''soon''\<rparr>) 0
      = Inr (Some InvalidDate)"
    by (simp add: defs)
  have ui: "formatRespawnTime sampleParse (griffin\<lparr>respawn_time := Some ''soon''\<rparr>) 0 0
      = Inr ''Unknown''"
    using formatRespawnTime_postcondition
      [of sampleParse "griffin\<lparr>respawn_time := Some ''soon''\<rparr>" 0 0 0,
        THEN conjunct1, rule_format, OF disjI2, OF i] .
  have p: "calculateRespawnTime sampleParse (timitris\<lparr>respawn_hours := None\<rparr>) 1753924200000
      = Inr (Some (Date 1753924200000))"
    by (simp add: defs)
  have le: "(1753924200000 :: int) - 1753924200000 \<le> 0"
    by simp
  have av: "formatRespawnTime sampleParse (timitris\<lparr>respawn_hours := None\<rparr>)
      1753924200000 1753924200000 = Inr ''Available Now!''"
    using formatRespawnTime_postcondition
      [of sampleParse "timitris\<lparr>respawn_hours := None\<rparr>" 1753924200000 1753924200000
        1753924200000, THEN conjunct2, THEN conjunct1, rule_format, OF conjI, OF p le] .
  have c: "calculateRespawnTime sampleParse timitris 1753924200000
      = Inr (Some (Date 1753953000000))"
    by (simp add: defs)
  have gt: "(0 :: int) < 1753953000000 - 1753924200000"
    by simp
  note cdr = formatRespawnTime_postcondition
    [of sampleParse timitris 1753924200000 1753924200000 1753953000000,
      THEN conjunct2, THEN conjunct2, rule_format, OF conjI, OF c gt]
  have cd: "formatRespawnTime sampleParse timitris 1753924200000 1753924200000 = Inr ''8h 0m''"
    using cdr by (simp add: numberToString_def natToString.simps digitChar_def)
  show ?thesis
    by (intro conjI) (fact n un i ui p av c cd)+
qed

section \<open>Sets and maps\<close>

lemma set_Set_add: "set (Set_add x xs) = insert x (set xs)"
  by (auto simp: Set_add_def)

lemma set_Set_delete: "set (Set_delete x xs) = set xs - {x}"
  by (auto simp: Set_delete_def)

lemma Set_delete_absent: "x \<notin> set xs \<Longrightarrow> Set_delete x xs = xs"
  by (simp add: Set_delete_def)

lemma distinct_Set_add: "distinct xs \<Longrightarrow> distinct (Set_add x xs)"
  by (simp add: Set_add_def)

lemma distinct_Set_delete: "distinct xs \<Longrightarrow> distinct (Set_delete x xs)"
  by (simp add: Set_delete_def distinct_removeAll)

lemma update_absent: "map_of al k = None \<Longrightarrow> AList.update k v al = al @ [(k, v)]"
  by (induction al) (auto split: if_splits)

lemma marks_differ: "checkMark \<noteq> crossMark"
  by (simp add: checkMark_def crossMark_def)

section \<open>What the handlers leave in the store\<close>

text \<open>The record a recognised added reaction leaves for its message.\<close>

lemma handleReactionAdd_check:
  "handleReactionAdd m checkMark u st =
     (let d = (case map_of (participationData st) m of None \<Rightarrow> emptyParticipation | Some d \<Rightarrow> d);
          d' = d\<lparr>notParticipating := Set_delete u (notParticipating d),
                 participating := Set_add u (participating d)\<rparr>
      in (st\<lparr>participationData := AList.update m d' (participationData st)\<rparr>, Some (m, d')))"
  by (cases "map_of (participationData st) m")
    (simp_all add: handleReactionAdd_def Let_def update_conv')

lemma handleReactionAdd_cross:
  "handleReactionAdd m crossMark u st =
     (let d = (case map_of (participationData st) m of None \<Rightarrow> emptyParticipation | Some d \<Rightarrow> d);
          d' = d\<lparr>participating := Set_delete u (participating d),
                 notParticipating := Set_add u (notParticipating d)\<rparr>
      in (st\<lparr>participationData := AList.update m d' (participationData st)\<rparr>, Some (m, d')))"
  using marks_differ
  by (cases "map_of (participationData st) m")
    (simp_all add: handleReactionAdd_def Let_def update_conv')

lemma handleReactionAdd_other:
  "e \<noteq> checkMark \<Longrightarrow> e \<noteq> crossMark \<Longrightarrow> handleReactionAdd m e u st = (st, None)"
  by (simp add: handleReactionAdd_def)

lemma handleReactionRemove_other:
  "e \<noteq> checkMark \<Longrightarrow> e \<noteq> crossMark \<Longrightarrow> handleReactionRemove m e u st = (st, None)"
  by (simp add: handleReactionRemove_def)

lemma handleReactionRemove_untracked:
  "map_of (participationData st) m = None \<Longrightarrow> handleReactionRemove m e u st = (st, None)"
  by (simp add: handleReactionRemove_def)

lemma handleReactionRemove_check:
  "map_of (participationData st) m = Some d \<Longrightarrow>
   handleReactionRemove m checkMark u st =
     (st\<lparr>participationData :=
          AList.update m (d\<lparr>participating := Set_delete u (participating d)\<rparr>) (participationData st)\<rparr>,
      Some (m, d\<lparr>participating := Set_delete u (participating d)\<rparr>))"
  by (simp add: handleReactionRemove_def Let_def)

lemma handleReactionRemove_cross:
  "map_of (participationData st) m = Some d \<Longrightarrow>
   handleReactionRemove m crossMark u st =
     (st\<lparr>participationData :=
          AList.update m (d\<lparr>notParticipating := Set_delete u (notParticipating d)\<rparr>)
            (participationData st)\<rparr>,
      Some (m, d\<lparr>notParticipating := Set_delete u (notParticipating d)\<rparr>))"
  using marks_differ by (simp add: handleReactionRemove_def Let_def)

text \<open>Neither handler touches the boss data or the record of another message.\<close>

lemma handleReactionAdd_frame:
  "messageBossData (fst (handleReactionAdd m e u st)) = messageBossData st"
  "m' \<noteq> m \<Longrightarrow>
   map_of (participationData (fst (handleReactionAdd m e u st))) m' = map_of (participationData st) m'"
  by (auto simp: handleReactionAdd_def Let_def update_conv' split: option.splits)

lemma handleReactionRemove_frame:
  "messageBossData (fst (handleReactionRemove m e u st)) = messageBossData st"
  "m' \<noteq> m \<Longrightarrow>
   map_of (participationData (fst (handleReactionRemove m e u st))) m'
     = map_of (participationData st) m'"
  by (auto simp: handleReactionRemove_def Let_def update_conv' split: option.splits)

section \<open>The transition table\<close>

lemma add_check_tracked:
  assumes "map_of (participationData st) m = Some r"
  shows "\<exists>r'. map_of (participationData (fst (handleReactionAdd m checkMark u st))) m = Some r' \<and>
           set (participating r') = insert u (set (participating r)) \<and>
           set (notParticipating r') = set (notParticipating r) - {u}"
  using assms by (simp add: handleReactionAdd_check Let_def update_conv' set_Set_add set_Set_delete)

lemma add_cross_tracked:
  assumes "map_of (participationData st) m = Some r"
  shows "\<exists>r'. map_of (participationData (fst (handleReactionAdd m crossMark u st))) m = Some r' \<and>
           set (participating r') = set (participating r) - {u} \<and>
           set (notParticipating r') = insert u (set (notParticipating r))"
  using assms by (simp add: handleReactionAdd_cross Let_def update_conv' set_Set_add set_Set_delete)

lemma remove_check_tracked:
  assumes "map_of (participationData st) m = Some r"
  shows "\<exists>r'. map_of (participationData (fst (handleReactionRemove m checkMark u st))) m = Some r' \<and>
           set (participating r') = set (participating r) - {u} \<and>
           notParticipating r' = notParticipating r"
  using assms by (simp add: handleReactionRemove_check update_conv' set_Set_delete)

lemma remove_cross_tracked:
  assumes "map_of (participationData st) m = Some r"
  shows "\<exists>r'. map_of (participationData (fst (handleReactionRemove m crossMark u st))) m = Some r' \<and>
           participating r' = participating r \<and>
           set (notParticipating r') = set (notParticipating r) - {u}"
  using assms by (simp add: handleReactionRemove_cross update_conv' set_Set_delete)

lemma remove_check_never_added:
  assumes "map_of (participationData st) m = Some r" and "u \<notin> set (participating r)"
  shows "fst (handleReactionRemove m checkMark u st) = st"
  using assms by (simp add: handleReactionRemove_check Set_delete_absent update_triv)

lemma remove_cross_never_added:
  assumes "map_of (participationData st) m = Some r" and "u \<notin> set (notParticipating r)"
  shows "fst (handleReactionRemove m crossMark u st) = st"
  using assms by (simp add: handleReactionRemove_cross Set_delete_absent update_triv)

text \<open>
  C2: on the record \<open>r\<close> of a tracked message, adding the positive symbol puts the user
  into \<open>participating\<close> and takes it out of \<open>notParticipating\<close>; removing the positive
  symbol takes the user out of \<open>participating\<close> and leaves \<open>notParticipating\<close> as it is;
  adding the negative symbol takes the user out of \<open>participating\<close> and puts it into
  \<open>notParticipating\<close>; removing the negative symbol takes the user out of
  \<open>notParticipating\<close> and leaves \<open>participating\<close> as it is; any other symbol leaves the
  store as it is; and removing a reaction that was never added leaves the store as it is.
  The handlers are total: no case raises.
\<close>

theorem reaction_transition_table:
  assumes "map_of (participationData st) m = Some r"
  shows
    "(\<exists>r'. map_of (participationData (fst (handleReactionAdd m checkMark u st))) m = Some r' \<and>
        set (participating r') = insert u (set (participating r)) \<and>
        set (notParticipating r') = set (notParticipating r) - {u}) \<and>
     (\<exists>r'. map_of (participationData (fst (handleReactionRemove m checkMark u st))) m = Some r' \<and>
        set (participating r') = set (participating r) - {u} \<and>
        notParticipating r' = notParticipating r) \<and>
     (\<exists>r'. map_of (participationData (fst (handleReactionAdd m crossMark u st))) m = Some r' \<and>
        set (participating r') = set (participating r) - {u} \<and>
        set (notParticipating r') = insert u (set (notParticipating r))) \<and>
     (\<exists>r'. map_of (participationData (fst (handleReactionRemove m crossMark u st))) m = Some r' \<and>
        participating r' = participating r \<and>
        set (notParticipating r') = set (notParticipating r) - {u}) \<and>
     (e \<noteq> checkMark \<and> e \<noteq> crossMark \<longrightarrow>
        handleReactionAdd m e u st = (st, None) \<and> handleReactionRemove m e u st = (st, None)) \<and>
     (u \<notin> set (participating r) \<longrightarrow> fst (handleReactionRemove m checkMark u st) = st) \<and>
     (u \<notin> set (notParticipating r) \<longrightarrow> fst (handleReactionRemove m crossMark u st) = st)"
proof (intro conjI impI)
  show "\<exists>r'. map_of (participationData (fst (handleReactionAdd m checkMark u st))) m = Some r' \<and>
        set (participating r') = insert u (set (participating r)) \<and>
        set (notParticipating r') = set (notParticipating r) - {u}"
    by (rule add_check_tracked [OF assms])
  show "\<exists>r'. map_of (participationData (fst (handleReactionRemove m checkMark u st))) m = Some r' \<and>
        set (participating r') = set (participating r) - {u} \<and>
        notParticipating r' = notParticipating r"
    by (rule remove_check_tracked [OF assms])
  show "\<exists>r'. map_of (participationData (fst (handleReactionAdd m crossMark u st))) m = Some r' \<and>
        set (participating r') = set (participating r) - {u} \<and>
        set (notParticipating r') = insert u (set (notParticipating r))"
    by (rule add_cross_tracked [OF assms])
  show "\<exists>r'. map_of (participationData (fst (handleReactionRemove m crossMark u st))) m = Some r' \<and>
        participating r' = participating r \<and>
        set (notParticipating r') = set (notParticipating r) - {u}"
    by (rule remove_cross_tracked [OF assms])
next
  assume "e \<noteq> checkMark \<and> e \<noteq> crossMark"
  then show "handleReactionAdd m e u st = (st, None)"
    and "handleReactionRemove m e u st = (st, None)"
    by (simp_all add: handleReactionAdd_other handleReactionRemove_other)
next
  assume "u \<notin> set (participating r)"
  with assms show "fst (handleReactionRemove m checkMark u st) = st"
    by (rule remove_check_never_added)
next
  assume "u \<notin> set (notParticipating r)"
  with assms show "fst (handleReactionRemove m crossMark u st) = st"
    by (rule remove_cross_never_added)
qed

text \<open>
  On the freshly posted message \<open>N1\<close>: user \<open>U1\<close> adds the positive symbol; a thumbs-up is
  ignored; removing a positive or a negative symbol that was never added changes nothing.
\<close>

theorem reaction_transition_table_witness:
  "map_of (participationData storeN1) ''N1'' = Some emptyParticipation \<and>
   (\<exists>r'. map_of (participationData (fst (handleReactionAdd ''N1'' checkMark ''U1'' storeN1))) ''N1''
            = Some r' \<and>
          set (participating r') = {''U1''} \<and> set (notParticipating r') = {}) \<and>
   handleReactionAdd ''N1'' ''+1'' ''U1'' storeN1 = (storeN1, None) \<and>
   handleReactionRemove ''N1'' ''+1'' ''U1'' storeN1 = (storeN1, None) \<and>
   fst (handleReactionRemove ''N1'' checkMark ''U1'' storeN1) = storeN1 \<and>
   fst (handleReactionRemove ''N1'' crossMark ''U1'' storeN1) = storeN1"
proof -
  have t: "map_of (participationData storeN1) ''N1'' = Some emptyParticipation"
    by (simp add: storeN1_def register_def emptyStore_def)
  have o: "''+1'' \<noteq> checkMark \<and> ''+1'' \<noteq> crossMark"
    by (simp add: checkMark_def crossMark_def)
  have n: "''U1'' \<notin> set (participating emptyParticipation)"
    "''U1'' \<notin> set (notParticipating emptyParticipation)"
    by (simp_all add: emptyParticipation_def)
  have s: "insert ''U1'' (set (participating emptyParticipation)) = {''U1''}"
    "set (notParticipating emptyParticipation) - {''U1''} = {}"
    by (simp_all add: emptyParticipation_def)
  note w = reaction_transition_table [OF t, of "''U1''" "''+1''"]
  have a: "\<exists>r'. map_of (participationData (fst (handleReactionAdd ''N1'' checkMark ''U1'' storeN1))) ''N1''
            = Some r' \<and>
          set (participating r') = {''U1''} \<and> set (notParticipating r') = {}"
    using w [THEN conjunct1] unfolding s .
  note w5 = w [THEN conjunct2, THEN conjunct2, THEN conjunct2, THEN conjunct2]
  have b: "handleReactionAdd ''N1'' ''+1'' ''U1'' storeN1 = (storeN1, None)"
    "handleReactionRemove ''N1'' ''+1'' ''U1'' storeN1 = (storeN1, None)"
    using w5 [THEN conjunct1, rule_format, OF o] by simp_all
  have c: "fst (handleReactionRemove ''N1'' checkMark ''U1'' storeN1) = storeN1"
    using w5 [THEN conjunct2, THEN conjunct1, rule_format, OF n(1)] .
  have d: "fst (handleReactionRemove ''N1'' crossMark ''U1'' storeN1) = storeN1"
    using w5 [THEN conjunct2, THEN conjunct2, rule_format, OF n(2)] .
  show ?thesis by (intro conjI) (fact t a b c d)+
qed

section \<open>Disjointness\<close>

lemma applyEvent_tracked:
  assumes "map_of (participationData st) m = Some r" and "disjointRecord r"
  shows "\<exists>r'. map_of (participationData (applyEvent st ev)) m = Some r' \<and> disjointRecord r'"
proof (cases ev)
  case (ReactionAdd m' e u)
  consider (other) "e \<noteq> checkMark" "e \<noteq> crossMark" | (elsewhere) "m' \<noteq> m"
    | (check) "e = checkMark" "m' = m" | (cross) "e = crossMark" "m' = m"
    by blast
  then show ?thesis
  proof cases
    case other
    with assms ReactionAdd show ?thesis by (simp add: handleReactionAdd_other)
  next
    case elsewhere
    with assms ReactionAdd show ?thesis by (simp add: handleReactionAdd_frame)
  next
    case check
    from add_check_tracked [OF assms(1), of u] assms(2) check ReactionAdd
    show ?thesis by (auto simp: disjointRecord_def)
  next
    case cross
    from add_cross_tracked [OF assms(1), of u] assms(2) cross ReactionAdd
    show ?thesis by (auto simp: disjointRecord_def)
  qed
next
  case (ReactionRemove m' e u)
  consider (other) "e \<noteq> checkMark" "e \<noteq> crossMark" | (elsewhere) "m' \<noteq> m"
    | (check) "e = checkMark" "m' = m" | (cross) "e = crossMark" "m' = m"
    by blast
  then show ?thesis
  proof cases
    case other
    with assms ReactionRemove show ?thesis by (simp add: handleReactionRemove_other)
  next
    case elsewhere
    with assms ReactionRemove show ?thesis by (simp add: handleReactionRemove_frame)
  next
    case check
    from remove_check_tracked [OF assms(1), of u] assms(2) check ReactionRemove
    show ?thesis by (auto simp: disjointRecord_def)
  next
    case cross
    from remove_cross_tracked [OF assms(1), of u] assms(2) cross ReactionRemove
    show ?thesis by (auto simp: disjointRecord_def)
  qed
qed

lemma applyEvents_tracked:
  assumes "map_of (participationData st) m = Some r" and "disjointRecord r"
  shows "\<exists>r'. map_of (participationData (applyEvents st es)) m = Some r' \<and> disjointRecord r'"
  using assms
proof (induction es arbitrary: st r)
  case Nil
  then show ?case by (simp add: applyEvents_def)
next
  case (Cons ev es)
  from applyEvent_tracked [OF Cons.prems, of ev] obtain r'
    where "map_of (participationData (applyEvent st ev)) m = Some r'" "disjointRecord r'"
    by blast
  from Cons.IH [OF this] show ?case by (simp add: applyEvents_def)
qed

text \<open>
  C3: start from the record of a message with two empty sets and apply any finite sequence
  of added and removed reactions, of any symbol, by any users, for any messages. After
  every prefix of the sequence the message is still tracked and no user id is in both
  \<open>participating\<close> and \<open>notParticipating\<close>.
\<close>

theorem participation_sets_stay_disjoint:
  assumes "map_of (participationData st) m = Some emptyParticipation"
  shows "\<forall>n \<le> length es.
           \<exists>r. map_of (participationData (applyEvents st (take n es))) m = Some r \<and>
               set (participating r) \<inter> set (notParticipating r) = {}"
proof (intro allI impI)
  fix n
  have "disjointRecord emptyParticipation"
    by (simp add: disjointRecord_def emptyParticipation_def)
  from applyEvents_tracked [OF assms this, of "take n es"]
  show "\<exists>r. map_of (participationData (applyEvents st (take n es))) m = Some r \<and>
      set (participating r) \<inter> set (notParticipating r) = {}"
    by (simp add: disjointRecord_def)
qed

text \<open>
  User \<open>U1\<close> adds the positive symbol to message \<open>N1\<close>, then the negative one, then removes
  the negative one, while user \<open>U2\<close> adds the positive symbol: after these four events the
  record holds \<open>U2\<close> as participating and nobody else.
\<close>

theorem participation_sets_stay_disjoint_witness:
  "map_of (participationData storeN1) ''N1'' = Some emptyParticipation \<and>
   (4 :: nat) \<le> length
     [ReactionAdd ''N1'' checkMark ''U1'', ReactionAdd ''N1'' crossMark ''U1'',
      ReactionAdd ''N1'' checkMark ''U2'', ReactionRemove ''N1'' crossMark ''U1''] \<and>
   (\<exists>r. map_of (participationData (applyEvents storeN1 (take 4
        [ReactionAdd ''N1'' checkMark ''U1'', ReactionAdd ''N1'' crossMark ''U1'',
         ReactionAdd ''N1'' checkMark ''U2'', ReactionRemove ''N1'' crossMark ''U1'']))) ''N1''
        = Some r \<and>
      set (participating r) \<inter> set (notParticipating r) = {}) \<and>
   map_of (participationData (applyEvents storeN1
        [ReactionAdd ''N1'' checkMark ''U1'', ReactionAdd ''N1'' crossMark ''U1'',
         ReactionAdd ''N1'' checkMark ''U2'', ReactionRemove ''N1'' crossMark ''U1''])) ''N1''
     = Some \<lparr>participating = [''U2''], notParticipating = []\<rparr>"
proof -
  have t: "map_of (participationData storeN1) ''N1'' = Some emptyParticipation"
    by (simp add: storeN1_def register_def emptyStore_def)
  have l: "(4 :: nat) \<le> length
     [ReactionAdd ''N1'' checkMark ''U1'', ReactionAdd ''N1'' crossMark ''U1'',
      ReactionAdd ''N1'' checkMark ''U2'', ReactionRemove ''N1'' crossMark ''U1'']"
    by simp
  have v: "map_of (participationData (applyEvents storeN1
        [ReactionAdd ''N1'' checkMark ''U1'', ReactionAdd ''N1'' crossMark ''U1'',
         ReactionAdd ''N1'' checkMark ''U2'', ReactionRemove ''N1'' crossMark ''U1''])) ''N1''
     = Some \<lparr>participating = [''U2''], notParticipating = []\<rparr>"
    by (simp add: applyEvents_def storeN1_def register_def emptyStore_def emptyParticipation_def
        handleReactionAdd_check handleReactionAdd_cross handleReactionRemove_cross
        Set_add_def Set_delete_def Let_def)
  note d = participation_sets_stay_disjoint [OF t, rule_format, OF l]
  show ?thesis by (intro conjI) (fact t l d v)+
qed

section \<open>Reactions to a message that is not tracked\<close>

text \<open>
  C4, as stated: a recognised reaction to an untracked message leaves the store unchanged.
  It fails for an added reaction: on the empty store, adding the positive symbol to message
  \<open>N1\<close> creates a record for \<open>N1\<close> and asks for a redraw.
\<close>

theorem untracked_add_creates_record_counterexample:
  "map_of (participationData emptyStore) ''N1'' = None \<and>
   fst (handleReactionAdd ''N1'' checkMark ''U1'' emptyStore) \<noteq> emptyStore \<and>
   handleReactionAdd ''N1'' checkMark ''U1'' emptyStore =
     (\<lparr>participationData = [(''N1'', \<lparr>participating = [''U1''], notParticipating = []\<rparr>)],
       messageBossData = []\<rparr>,
      Some (''N1'', \<lparr>participating = [''U1''], notParticipating = []\<rparr>))"
  by (simp add: handleReactionAdd_check emptyStore_def emptyParticipation_def Set_add_def
      Set_delete_def Let_def)

text \<open>
  C4, amended: for a message that is not tracked, a removed reaction, whatever its symbol,
  and an added reaction with an unrecognised symbol leave the store unchanged and ask for
  no redraw. An added reaction with a recognised symbol appends a record for the message
  that holds the user in the set of that symbol and nothing else, and asks for a redraw;
  the boss data and the records of the other messages stay as they are.
\<close>

theorem untracked_reaction:
  assumes "map_of (participationData st) m = None"
  shows
    "handleReactionRemove m e u st = (st, None) \<and>
     (e \<noteq> checkMark \<and> e \<noteq> crossMark \<longrightarrow> handleReactionAdd m e u st = (st, None)) \<and>
     handleReactionAdd m checkMark u st =
       (st\<lparr>participationData :=
            participationData st @ [(m, \<lparr>participating = [u], notParticipating = []\<rparr>)]\<rparr>,
        Some (m, \<lparr>participating = [u], notParticipating = []\<rparr>)) \<and>
     handleReactionAdd m crossMark u st =
       (st\<lparr>participationData :=
            participationData st @ [(m, \<lparr>participating = [], notParticipating = [u]\<rparr>)]\<rparr>,
        Some (m, \<lparr>participating = [], notParticipating = [u]\<rparr>))"
  using assms
  by (simp add: handleReactionRemove_untracked handleReactionAdd_other handleReactionAdd_check
      handleReactionAdd_cross update_absent emptyParticipation_def Set_add_def Set_delete_def
      Let_def)

text \<open>A negative symbol removed from, and then added to, the untracked message \<open>N2\<close>.\<close>

theorem untracked_reaction_witness:
  "map_of (participationData storeN1) ''N2'' = None \<and>
   handleReactionRemove ''N2'' crossMark ''U1'' storeN1 = (storeN1, None) \<and>
   ''+1'' \<noteq> checkMark \<and> ''+1'' \<noteq> crossMark \<and>
   handleReactionAdd ''N2'' ''+1'' ''U1'' storeN1 = (storeN1, None) \<and>
   map_of (participationData (fst (handleReactionAdd ''N2'' crossMark ''U1'' storeN1))) ''N2''
     = Some \<lparr>participating = [], notParticipating = [''U1'']\<rparr>"
proof -
  have t: "map_of (participationData storeN1) ''N2'' = None"
    by (simp add: storeN1_def register_def emptyStore_def)
  have o: "''+1'' \<noteq> checkMark \<and> ''+1'' \<noteq> crossMark"
    by (simp add: checkMark_def crossMark_def)
  note w = untracked_reaction [OF t]
  have r: "handleReactionRemove ''N2'' crossMark ''U1'' storeN1 = (storeN1, None)"
    using w [of crossMark "''U1''", THEN conjunct1] .
  have a: "handleReactionAdd ''N2'' ''+1'' ''U1'' storeN1 = (storeN1, None)"
    using w [of "''+1''" "''U1''", THEN conjunct2, THEN conjunct1, rule_format, OF o] .
  have "handleReactionAdd ''N2'' crossMark ''U1'' storeN1 =
       (storeN1\<lparr>participationData :=
            participationData storeN1 @ [(''N2'', \<lparr>participating = [], notParticipating = [''U1'']\<rparr>)]\<rparr>,
        Some (''N2'', \<lparr>participating = [], notParticipating = [''U1'']\<rparr>))"
    using w [of crossMark "''U1''", THEN conjunct2, THEN conjunct2, THEN conjunct2] .
  then have c: "map_of (participationData (fst (handleReactionAdd ''N2'' crossMark ''U1'' storeN1))) ''N2''
     = Some \<lparr>participating = [], notParticipating = [''U1'']\<rparr>"
    using t by (simp add: map_add_def)
  show ?thesis by (intro conjI) (fact t r a c o [THEN conjunct1] o [THEN conjunct2])+
qed

section \<open>Registration\<close>

lemma register_lookup:
  "map_of (participationData (register m b st)) m' =
     (if m' = m then Some emptyParticipation else map_of (participationData st) m')"
  "map_of (messageBossData (register m b st)) m' =
     (if m' = m then Some b else map_of (messageBossData st) m')"
  by (simp_all add: register_def update_conv')

lemma storeN1U1_record:
  "map_of (participationData storeN1U1) ''N1'' = Some \<lparr>participating = [''U1''], notParticipating = []\<rparr>"
  by (simp add: storeN1U1_def storeN1_def register_def emptyStore_def emptyParticipation_def
      handleReactionAdd_check Set_add_def Set_delete_def Let_def)

text \<open>
  C9, as stated: registering an id that is already tracked fails. Message \<open>N1\<close> is tracked
  with user \<open>U1\<close> participating; the specification's \<open>register\<close> fails there, the code's
  returns a store in which the record of \<open>N1\<close> is empty again.
\<close>

theorem register_duplicate_counterexample:
  "map_of (participationData storeN1U1) ''N1''
     = Some \<lparr>participating = [''U1''], notParticipating = []\<rparr> \<and>
   spec_register ''N1'' griffin storeN1U1 = Inl DuplicateNotification \<and>
   Inr (register ''N1'' griffin storeN1U1) \<noteq> spec_register ''N1'' griffin storeN1U1 \<and>
   map_of (participationData (register ''N1'' griffin storeN1U1)) ''N1'' = Some emptyParticipation \<and>
   map_of (messageBossData (register ''N1'' griffin storeN1U1)) ''N1'' = Some griffin"
  by (simp add: storeN1U1_record spec_register_def register_lookup)

lemma update_tracked_keys:
  "map_of al k = Some v \<Longrightarrow> map fst (AList.update k v' al) = map fst al"
  by (auto simp: update_keys dest: map_of_SomeD intro: rev_image_eqI)

text \<open>
  C9, amended: \<open>register\<close> never fails. Whether or not the id is already tracked, afterwards
  its participation record has two empty sets and its boss data is the new snapshot; for an
  id that is already tracked the existing record and snapshot are overwritten where they
  stand, and no second entry appears. Every other id keeps what it had.
\<close>

theorem register_overwrites:
  "map_of (participationData (register m b st)) m = Some emptyParticipation \<and>
   map_of (messageBossData (register m b st)) m = Some b \<and>
   (map_of (participationData st) m = Some r \<longrightarrow>
      map fst (participationData (register m b st)) = map fst (participationData st)) \<and>
   (map_of (messageBossData st) m = Some b' \<longrightarrow>
      map fst (messageBossData (register m b st)) = map fst (messageBossData st)) \<and>
   (m' \<noteq> m \<longrightarrow>
      map_of (participationData (register m b st)) m' = map_of (participationData st) m' \<and>
      map_of (messageBossData (register m b st)) m' = map_of (messageBossData st) m')"
proof (intro conjI impI)
  show "map_of (participationData (register m b st)) m = Some emptyParticipation"
    and "map_of (messageBossData (register m b st)) m = Some b"
    by (simp_all add: register_lookup)
next
  assume "map_of (participationData st) m = Some r"
  then show "map fst (participationData (register m b st)) = map fst (participationData st)"
    by (simp add: register_def update_tracked_keys)
next
  assume "map_of (messageBossData st) m = Some b'"
  then show "map fst (messageBossData (register m b st)) = map fst (messageBossData st)"
    by (simp add: register_def update_tracked_keys)
next
  assume "m' \<noteq> m"
  then show "map_of (participationData (register m b st)) m' = map_of (participationData st) m'"
    and "map_of (messageBossData (register m b st)) m' = map_of (messageBossData st) m'"
    by (simp_all add: register_lookup)
qed

text \<open>
  Message \<open>N1\<close>, tracked with user \<open>U1\<close> participating, is registered again; and message
  \<open>N2\<close> is registered beside it.
\<close>

theorem register_overwrites_witness:
  "map_of (participationData storeN1U1) ''N1''
     = Some \<lparr>participating = [''U1''], notParticipating = []\<rparr> \<and>
   map_of (messageBossData storeN1U1) ''N1'' = Some timitris \<and>
   map_of (participationData (register ''N1'' griffin storeN1U1)) ''N1'' = Some emptyParticipation \<and>
   map_of (messageBossData (register ''N1'' griffin storeN1U1)) ''N1'' = Some griffin \<and>
   map fst (participationData (register ''N1'' griffin storeN1U1)) = [''N1''] \<and>
   map fst (messageBossData (register ''N1'' griffin storeN1U1)) = [''N1''] \<and>
   ''N1'' \<noteq> ''N2'' \<and>
   map_of (participationData (register ''N2'' griffin storeN1U1)) ''N1''
     = Some \<lparr>participating = [''U1''], notParticipating = []\<rparr>"
proof -
  note a = register_overwrites
    [of "''N1''" griffin storeN1U1 "\<lparr>participating = [''U1''], notParticipating = []\<rparr>"
      timitris "''N2''"]
  note b = register_overwrites [of "''N2''" griffin storeN1U1 _ _ "''N1''"]
  have n: "''N1'' \<noteq> ''N2''" by simp
  have bd: "map_of (messageBossData storeN1U1) ''N1'' = Some timitris"
    by (simp add: storeN1U1_def storeN1_def register_def emptyStore_def
        handleReactionAdd_frame)
  have kp: "map fst (participationData storeN1U1) = [''N1'']"
    by (simp add: storeN1U1_def storeN1_def register_def emptyStore_def emptyParticipation_def
        handleReactionAdd_check Let_def)
  have kb: "map fst (messageBossData storeN1U1) = [''N1'']"
    by (simp add: storeN1U1_def storeN1_def register_def emptyStore_def
        handleReactionAdd_frame)
  note a3 = a [THEN conjunct2, THEN conjunct2, THEN conjunct1, rule_format,
    OF storeN1U1_record, unfolded kp]
  note a4 = a [THEN conjunct2, THEN conjunct2, THEN conjunct2, THEN conjunct1, rule_format,
    OF bd, unfolded kb]
  have c: "map_of (participationData (register ''N2'' griffin storeN1U1)) ''N1''
     = Some \<lparr>participating = [''U1''], notParticipating = []\<rparr>"
    using b [THEN conjunct2, THEN conjunct2, THEN conjunct2, THEN conjunct2, rule_format,
      OF n, THEN conjunct1]
    by (simp add: storeN1U1_record)
  show ?thesis
    by (intro conjI)
      (fact storeN1U1_record bd a [THEN conjunct1] a [THEN conjunct2, THEN conjunct1] a3 a4 n c)+
qed

section \<open>Properties of the participation rate\<close>

lemma toDouble_zero: "toDouble 0 = 0"
  by (simp add: toDouble_def)

lemma rate_zero_participants:
  "0 < n \<Longrightarrow> participationRate 0 n = 0"
proof -
  have "\<lfloor>(1 :: rat) / 2\<rfloor> = 0" by (rule floor_unique) simp_all
  then show "0 < n \<Longrightarrow> participationRate 0 n = 0"
    by (simp add: participationRate_def toDouble_zero Math_round_def)
qed

text \<open>The computed product is within \<open>300 / 2^53\<close> of the exact percentage.\<close>

lemma percentage_error:
  fixes x :: rat
  assumes "0 < x" and "x \<le> 1"
  shows "abs (toDouble (toDouble x * 100) - x * 100) \<le> 300 / 2 ^ 53"
proof -
  define q where "q = toDouble x"
  define y where "y = toDouble (q * 100)"
  have xq: "abs (q - x) \<le> x / 2 ^ 53"
    unfolding q_def by (rule toDouble_error [OF assms(1)])
  then have xq': "abs (q - x) \<le> x / 9007199254740992"
    by simp
  then have q_pos: "0 < q"
    using assms(1) by linarith
  then have "0 < q * 100" by simp
  then have "abs (y - q * 100) \<le> q * 100 / 2 ^ 53"
    unfolding y_def by (rule toDouble_error)
  then have yq': "abs (y - q * 100) \<le> q * 100 / 9007199254740992"
    by simp
  from xq' yq' assms have "abs (y - x * 100) \<le> 300 / 9007199254740992"
    by linarith
  then show ?thesis
    unfolding q_def y_def by simp
qed

lemma rate_nearest:
  fixes p n :: nat
  assumes "0 < p + n" and "p + n \<le> 1000000000000"
  shows "abs (of_int (participationRate p n) - 100 * of_nat p / of_nat (p + n) :: rat) \<le> 1 / 2"
proof (cases "p = 0")
  case True
  with assms show ?thesis by (simp add: rate_zero_participants)
next
  case False
  define T :: rat where "T = of_nat (p + n)"
  define x :: rat where "x = of_nat p / T"
  define y where "y = toDouble (toDouble x * 100)"
  define r where "r = participationRate p n"
  define N :: int where "N = 2 * r * int (p + n) - 200 * int p"
  have T: "0 < T" "T \<le> 1000000000000"
    using assms by (simp_all add: T_def del: of_nat_add)
  have x: "0 < x" "x \<le> 1"
    using False T by (simp_all add: x_def T_def)
  have r: "r = \<lfloor>y + 1 / 2\<rfloor>"
    using assms(1) by (simp add: r_def participationRate_def Let_def Math_round_def y_def x_def T_def)
  have fl: "of_int r \<le> y + 1 / 2" "y + 1 / 2 < of_int r + 1"
    unfolding r by linarith+
  have err: "abs (y - x * 100) \<le> 300 / 2 ^ 53"
    unfolding y_def by (rule percentage_error [OF x])
  have N: "of_int N = (of_int r - x * 100) * (2 * T)"
    using T(1) by (simp add: N_def x_def T_def field_simps)
  have err': "abs (y - x * 100) \<le> 300 / 9007199254740992"
    using err by simp
  have "of_int r - x * 100 \<le> 1 / 2 + 300 / 9007199254740992"
    using fl(1) err' by linarith
  then have up: "of_int r - x * 100 \<le> 1 / 2 + 300 / 2 ^ 53"
    by simp
  have "- (1 / 2) - 300 / 9007199254740992 < of_int r - x * 100"
    using fl(2) err' by linarith
  then have lo: "- (1 / 2) - 300 / 2 ^ 53 < of_int r - x * 100"
    by simp
  have "of_int N \<le> (1 / 2 + 300 / 2 ^ 53) * (2 * T)"
    unfolding N using up T(1) by (intro mult_right_mono) simp_all
  also have "\<dots> < T + 1"
    using T by (simp add: field_simps)
  finally have "of_int N < (of_int (int (p + n) + 1) :: rat)"
    by (simp add: T_def)
  then have "N < int (p + n) + 1"
    by (simp only: of_int_less_iff)
  then have Nup: "N \<le> int (p + n)"
    by simp
  have "- T - 1 < (- (1 / 2) - 300 / 2 ^ 53) * (2 * T)"
    using T by (simp add: field_simps)
  also have "\<dots> < of_int N"
    unfolding N using lo T(1) by (intro mult_strict_right_mono) simp_all
  finally have "(of_int (- int (p + n) - 1) :: rat) < of_int N"
    by (simp add: T_def)
  then have "- int (p + n) - 1 < N"
    by (simp only: of_int_less_iff)
  with Nup have "abs N \<le> int (p + n)"
    by simp
  then have "(of_int (abs N) :: rat) \<le> of_int (int (p + n))"
    by (simp only: of_int_le_iff)
  then have "abs (of_int N :: rat) \<le> T"
    by (simp add: T_def)
  then have "abs (of_int r - x * 100) * (2 * T) \<le> T"
    using T(1) by (simp add: N abs_mult)
  then have "abs (of_int r - x * 100) \<le> 1 / 2"
    using T(1) by (simp add: field_simps)
  moreover have "x * 100 = 100 * of_nat p / of_nat (p + n)"
    by (simp add: x_def T_def)
  ultimately show ?thesis
    by (simp only: r_def)
qed

lemma odd_multiple_mod:
  fixes t k :: int
  assumes "0 < t"
  shows "((2 * k + 1) * t) mod (2 * t) = t"
proof -
  have "(2 * k + 1) * t = t + k * (2 * t)"
    by (simp add: algebra_simps)
  then have "((2 * k + 1) * t) mod (2 * t) = t mod (2 * t)"
    by (simp only: mod_mult_self1)
  also have "\<dots> = t"
    using assms by simp
  finally show ?thesis .
qed

lemma rate_exact:
  fixes p n :: nat
  assumes "0 < p + n" and "p + n \<le> 1000000000000"
    and "(200 * p) mod (2 * (p + n)) \<noteq> p + n"
  shows "participationRate p n = round (100 * of_nat p / of_nat (p + n) :: rat)"
proof -
  define t :: int where "t = int (p + n)"
  define r where "r = participationRate p n"
  define z :: rat where "z = 100 * of_nat p / of_nat (p + n)"
  have t: "0 < t" using assms(1) by (simp add: t_def del: of_nat_add)
  have near: "abs (of_int r - z) \<le> 1 / 2"
    unfolding r_def z_def by (rule rate_nearest [OF assms(1,2)])
  have zt: "z * of_int t = of_int (100 * int p)"
    using assms(1) by (simp add: z_def t_def del: of_nat_add)
  have no_tie: "of_int r - z \<noteq> 1 / 2 \<and> of_int r - z \<noteq> - (1 / 2)"
  proof (rule ccontr)
    assume "\<not> ?thesis"
    then consider (up) "of_int r - z = 1 / 2" | (down) "of_int r - z = - (1 / 2)"
      by blast
    then have "\<exists>k. 200 * int p = (2 * k + 1) * t"
    proof cases
      case up
      then have "(of_int r - z) * (2 * of_int t) = of_int t"
        by simp
      then have "(of_int (2 * r * t - 200 * int p) :: rat) = of_int t"
        using zt by (simp add: algebra_simps)
      then have "2 * r * t - 200 * int p = t"
        by (simp only: of_int_eq_iff)
      then have "200 * int p = (2 * (r - 1) + 1) * t"
        by (simp add: algebra_simps)
      then show ?thesis by blast
    next
      case down
      then have "(of_int r - z) * (2 * of_int t) = - of_int t"
        by simp
      then have "(of_int (2 * r * t - 200 * int p) :: rat) = of_int (- t)"
        using zt by (simp add: algebra_simps)
      then have "2 * r * t - 200 * int p = - t"
        by (simp only: of_int_eq_iff)
      then have "200 * int p = (2 * r + 1) * t"
        by (simp add: algebra_simps)
      then show ?thesis by blast
    qed
    then obtain k where "200 * int p = (2 * k + 1) * t" ..
    then have "(200 * int p) mod (2 * t) = t"
      using odd_multiple_mod [OF t] by simp
    then have "int ((200 * p) mod (2 * (p + n))) = int (p + n)"
      by (simp add: t_def zmod_int)
    then have "(200 * p) mod (2 * (p + n)) = p + n"
      by (simp only: of_nat_eq_iff)
    with assms(3) show False by simp
  qed
  with near have "abs (z - of_int r) < 1 / 2"
    by linarith
  then have "round z = r"
    by (rule round_unique')
  then show ?thesis
    by (simp add: r_def z_def)
qed

lemma rate_examples:
  "participationRate 2 0 = 100" "participationRate 1 1 = 50" "participationRate 23 17 = 57"
  by code_simp+

text \<open>
  At an exact half the doubles decide: 23 of 40 is 57.5 percent, the product computed in
  doubles is just below it, and the rate shown is 57, where rounding the exact percentage a
  half upwards gives 58. Both are nearest whole numbers.
\<close>

lemma rate_at_a_tie:
  "participationRate 23 17 = 57 \<and> round (100 * of_nat 23 / of_nat (23 + 17) :: rat) = 58"
proof -
  have "round (100 * of_nat 23 / of_nat (23 + 17) :: rat) = 58"
    by code_simp
  then show ?thesis
    by (simp add: rate_examples)
qed

lemma two_positive_reactions:
  "map_of (participationData (applyEvents storeN1
      [ReactionAdd ''N1'' checkMark ''U1'', ReactionAdd ''N1'' checkMark ''U2''])) ''N1''
     = Some \<lparr>participating = [''U1'', ''U2''], notParticipating = []\<rparr>"
  by (simp add: applyEvents_def storeN1_def register_def emptyStore_def emptyParticipation_def
      handleReactionAdd_check Set_add_def Set_delete_def Let_def)

lemma then_one_negative_reaction:
  "map_of (participationData (applyEvents storeN1
      [ReactionAdd ''N1'' checkMark ''U1'', ReactionAdd ''N1'' checkMark ''U2'',
       ReactionAdd ''N1'' crossMark ''U1''])) ''N1''
     = Some \<lparr>participating = [''U2''], notParticipating = [''U1'']\<rparr>"
  by (simp add: applyEvents_def storeN1_def register_def emptyStore_def emptyParticipation_def
      handleReactionAdd_check handleReactionAdd_cross Set_add_def Set_delete_def Let_def)

text \<open>
  C8: the rate shown is \<open>0\<close> when both sets are empty; otherwise it is a whole number of
  percent nearest to \<open>participating / (participating + notParticipating) * 100\<close>, and it is
  that percentage rounded a half upwards whenever the percentage is not exactly halfway
  between two whole numbers. (The counts are taken up to \<open>10^12\<close>.) After users \<open>U1\<close> and
  \<open>U2\<close> react positively to message \<open>N1\<close> the rate is \<open>100\<close>; after \<open>U1\<close> then reacts
  negatively the sets hold one user each and the rate is \<open>50\<close>.
\<close>

theorem participationRate_nearest_percent:
  "participationRate 0 0 = 0 \<and>
   (0 < p + n \<and> p + n \<le> 1000000000000 \<longrightarrow>
      abs (of_int (participationRate p n) - 100 * of_nat p / of_nat (p + n) :: rat) \<le> 1 / 2) \<and>
   (0 < p + n \<and> p + n \<le> 1000000000000 \<and> (200 * p) mod (2 * (p + n)) \<noteq> p + n \<longrightarrow>
      participationRate p n = round (100 * of_nat p / of_nat (p + n) :: rat)) \<and>
   map_of (participationData (applyEvents storeN1
      [ReactionAdd ''N1'' checkMark ''U1'', ReactionAdd ''N1'' checkMark ''U2''])) ''N1''
     = Some \<lparr>participating = [''U1'', ''U2''], notParticipating = []\<rparr> \<and>
   rateOf \<lparr>participating = [''U1'', ''U2''], notParticipating = []\<rparr> = 100 \<and>
   map_of (participationData (applyEvents storeN1
      [ReactionAdd ''N1'' checkMark ''U1'', ReactionAdd ''N1'' checkMark ''U2'',
       ReactionAdd ''N1'' crossMark ''U1''])) ''N1''
     = Some \<lparr>participating = [''U2''], notParticipating = [''U1'']\<rparr> \<and>
   length (participating \<lparr>participating = [''U2''], notParticipating = [''U1'']\<rparr>) = 1 \<and>
   length (notParticipating \<lparr>participating = [''U2''], notParticipating = [''U1'']\<rparr>) = 1 \<and>
   rateOf \<lparr>participating = [''U2''], notParticipating = [''U1'']\<rparr> = 50"
proof (intro conjI impI)
  show "participationRate 0 0 = 0"
    by (simp add: participationRate_def)
  have l2: "length [''U1'', ''U2''] = (2 :: nat)" and l0: "length ([] :: userid list) = 0"
    and l1: "length [''U2''] = (1 :: nat)" "length [''U1''] = (1 :: nat)"
    by simp_all
  show "rateOf \<lparr>participating = [''U1'', ''U2''], notParticipating = []\<rparr> = 100"
    unfolding rateOf_def participation.select_convs l2 l0 by (rule rate_examples(1))
  show "rateOf \<lparr>participating = [''U2''], notParticipating = [''U1'']\<rparr> = 50"
    unfolding rateOf_def participation.select_convs l1 by (rule rate_examples(2))
  show "length (participating \<lparr>participating = [''U2''], notParticipating = [''U1'']\<rparr>) = 1"
    and "length (notParticipating \<lparr>participating = [''U2''], notParticipating = [''U1'']\<rparr>) = 1"
    by simp_all
  show "map_of (participationData (applyEvents storeN1
      [ReactionAdd ''N1'' checkMark ''U1'', ReactionAdd ''N1'' checkMark ''U2''])) ''N1''
     = Some \<lparr>participating = [''U1'', ''U2''], notParticipating = []\<rparr>"
    by (rule two_positive_reactions)
  show "map_of (participationData (applyEvents storeN1
      [ReactionAdd ''N1'' checkMark ''U1'', ReactionAdd ''N1'' checkMark ''U2'',
       ReactionAdd ''N1'' crossMark ''U1''])) ''N1''
     = Some \<lparr>participating = [''U2''], notParticipating = [''U1'']\<rparr>"
    by (rule then_one_negative_reaction)
next
  assume h: "0 < p + n \<and> p + n \<le> 1000000000000"
  show "abs (of_int (participationRate p n) - 100 * of_nat p / of_nat (p + n) :: rat) \<le> 1 / 2"
    by (rule rate_nearest [OF h [THEN conjunct1] h [THEN conjunct2]])
next
  assume h: "0 < p + n \<and> p + n \<le> 1000000000000 \<and> (200 * p) mod (2 * (p + n)) \<noteq> p + n"
  show "participationRate p n = round (100 * of_nat p / of_nat (p + n) :: rat)"
    by (rule rate_exact [OF h [THEN conjunct1] h [THEN conjunct2, THEN conjunct1]
          h [THEN conjunct2, THEN conjunct2]])
qed

text \<open>
  Twenty-three of forty, an exact half, where the rate shown is 57; and one of three, where
  it is the rounded percentage.
\<close>

theorem participationRate_nearest_percent_witness:
  "(0 :: nat) < 23 + 17 \<and> (23 :: nat) + 17 \<le> 1000000000000 \<and>
   abs (of_int (participationRate 23 17) - 100 * of_nat 23 / of_nat (23 + 17) :: rat) \<le> 1 / 2 \<and>
   (0 :: nat) < 1 + 2 \<and> (1 :: nat) + 2 \<le> 1000000000000 \<and>
   (200 * 1) mod (2 * (1 + 2)) \<noteq> (1 :: nat) + 2 \<and>
   participationRate 1 2 = round (100 * of_nat 1 / of_nat (1 + 2) :: rat)"
proof -
  have a: "(0 :: nat) < 23 + 17" "(23 :: nat) + 17 \<le> 1000000000000"
    by simp_all
  have b: "(0 :: nat) < 1 + 2" "(1 :: nat) + 2 \<le> 1000000000000"
    "(200 * 1) mod (2 * (1 + 2)) \<noteq> (1 :: nat) + 2"
    by simp_all
  note w1 = participationRate_nearest_percent
    [of 23 17, THEN conjunct2, THEN conjunct1, rule_format, OF conjI, OF a]
  note w2 = participationRate_nearest_percent
    [of 1 2, THEN conjunct2, THEN conjunct2, THEN conjunct1, rule_format,
      OF conjI, OF b(1) conjI, OF b(2) b(3)]
  show ?thesis
    by (intro conjI) (fact a b w1 w2)+
qed

section \<open>The periodic update\<close>

lemma isOld_iff:
  assumes "abs (now - 86400000) \<le> maxTime"
  shows "isOld parseDate now clk b = Inr True \<longleftrightarrow> respawnLongPast parseDate b clk now"
proof -
  have "now - 24 * 60 * 60 * 1000 = now - 86400000"
    by simp
  then have nd: "newDate (of_int (now - 24 * 60 * 60 * 1000)) = Date (now - 86400000)"
    using assms by (simp only: newDate_of_int if_True)
  have "isOld parseDate now clk b =
      (case calculateRespawnTime parseDate b clk of
         Inl e \<Rightarrow> Inl e
       | Inr None \<Rightarrow> Inr False
       | Inr (Some r) \<Rightarrow> Inr (getTimeLess r (Date (now - 86400000))))"
    unfolding isOld_def Let_def nd ..
  then show ?thesis
    by (auto simp: respawnLongPast_def getTimeLess_def
        split: sum.splits option.splits jsdate.splits)
qed

text \<open>
  The redraw pass drops exactly the visited messages that are lost, from both maps.
\<close>

lemma redrawLoop_bossData:
  "map_of (messageBossData (redrawLoop channelOk messageFound es st)) k =
     (if (\<exists>b. (k, b) \<in> set es) \<and> messageLost channelOk messageFound st k then None
      else map_of (messageBossData st) k)"
proof (induction es arbitrary: st)
  case Nil
  show ?case by simp
next
  case (Cons e es)
  obtain m bm where e: "e = (m, bm)" by (cases e)
  show ?case
  proof (cases "m = k")
    case True
    then show ?thesis
      by (auto simp: e Cons.IH messageLost_def delete_conv')
  next
    case False
    then show ?thesis
      by (auto simp: e Cons.IH messageLost_def delete_conv')
  qed
qed

lemma redrawLoop_participation:
  "map_of (participationData (redrawLoop channelOk messageFound es st)) k =
     (if (\<exists>b. (k, b) \<in> set es) \<and> messageLost channelOk messageFound st k then None
      else map_of (participationData st) k)"
proof (induction es arbitrary: st)
  case Nil
  show ?case by simp
next
  case (Cons e es)
  obtain m bm where e: "e = (m, bm)" by (cases e)
  show ?case
  proof (cases "m = k")
    case True
    then show ?thesis
      by (auto simp: e Cons.IH messageLost_def delete_conv')
  next
    case False
    then show ?thesis
      by (auto simp: e Cons.IH messageLost_def delete_conv')
  qed
qed

lemma redrawLoop_distinct:
  "distinct (map fst (messageBossData st)) \<Longrightarrow>
   distinct (map fst (messageBossData (redrawLoop channelOk messageFound es st)))"
  by (induction es arbitrary: st) (auto simp: distinct_delete)

text \<open>
  A clean-up pass that runs to its end drops exactly the visited messages that are old,
  from both maps.
\<close>

lemma cleanupLoop_bossData:
  "fst (cleanupLoop p now clk es st) = None \<Longrightarrow>
   map_of (messageBossData (snd (cleanupLoop p now clk es st))) k =
     (if \<exists>b. (k, b) \<in> set es \<and> isOld p now (clk k) b = Inr True then None
      else map_of (messageBossData st) k)"
proof (induction es arbitrary: st)
  case Nil
  show ?case by simp
next
  case (Cons e es)
  obtain m bm where e: "e = (m, bm)" by (cases e)
  show ?case
  proof (cases "isOld p now (clk m) bm")
    case (Inl err)
    with Cons.prems show ?thesis by (simp add: e)
  next
    case (Inr old)
    show ?thesis
    proof (cases "m = k")
      case True
      with Cons.prems Inr show ?thesis
        by (auto simp: e Cons.IH delete_conv')
    next
      case False
      with Cons.prems Inr show ?thesis
        by (auto simp: e Cons.IH delete_conv')
    qed
  qed
qed

lemma cleanupLoop_participation:
  "fst (cleanupLoop p now clk es st) = None \<Longrightarrow>
   map_of (participationData (snd (cleanupLoop p now clk es st))) k =
     (if \<exists>b. (k, b) \<in> set es \<and> isOld p now (clk k) b = Inr True then None
      else map_of (participationData st) k)"
proof (induction es arbitrary: st)
  case Nil
  show ?case by simp
next
  case (Cons e es)
  obtain m bm where e: "e = (m, bm)" by (cases e)
  show ?case
  proof (cases "isOld p now (clk m) bm")
    case (Inl err)
    with Cons.prems show ?thesis by (simp add: e)
  next
    case (Inr old)
    show ?thesis
    proof (cases "m = k")
      case True
      with Cons.prems Inr show ?thesis
        by (auto simp: e Cons.IH delete_conv')
    next
      case False
      with Cons.prems Inr show ?thesis
        by (auto simp: e Cons.IH delete_conv')
    qed
  qed
qed

text \<open>Whether it runs to its end or not, the clean-up pass adds no entry.\<close>

lemma cleanupLoop_adds_nothing:
  "map_of (messageBossData st) k = None \<Longrightarrow>
     map_of (messageBossData (snd (cleanupLoop p now clk es st))) k = None"
  "map_of (participationData st) k = None \<Longrightarrow>
     map_of (participationData (snd (cleanupLoop p now clk es st))) k = None"
proof (induction es arbitrary: st)
  case Nil
  {
    case 1
    then show ?case by simp
  next
    case 2
    then show ?case by simp
  }
next
  case (Cons e es)
  obtain m bm where e: "e = (m, bm)" by (cases e)
  {
    case 1
    then show ?case
      by (cases "isOld p now (clk m) bm") (simp_all add: e Cons.IH(1) delete_conv')
  next
    case 2
    then show ?case
      by (cases "isOld p now (clk m) bm") (simp_all add: e Cons.IH(2) delete_conv')
  }
qed

text \<open>A tick while the bot is not connected changes nothing.\<close>

lemma periodicUpdate_disconnected:
  "periodicUpdate False channelOk messageFound parseDate now clock st = (None, st)"
  by (simp add: periodicUpdate_def)

text \<open>A tracked message that is lost is dropped by the redraw pass, and stays dropped.\<close>

lemma periodicUpdate_lost:
  assumes "map_of (messageBossData st) k = Some b"
    and "messageLost channelOk messageFound st k"
  shows "map_of (messageBossData
           (snd (periodicUpdate True channelOk messageFound parseDate now clock st))) k = None"
    and "map_of (participationData
           (snd (periodicUpdate True channelOk messageFound parseDate now clock st))) k = None"
proof -
  define redrawn where "redrawn = redrawLoop channelOk messageFound (messageBossData st) st"
  have mem: "\<exists>b. (k, b) \<in> set (messageBossData st)"
    using assms(1) by (auto dest: map_of_SomeD)
  have "map_of (messageBossData redrawn) k = None"
    and "map_of (participationData redrawn) k = None"
    using assms(2) mem
    by (simp_all add: redrawn_def redrawLoop_bossData redrawLoop_participation)
  then show "map_of (messageBossData
           (snd (periodicUpdate True channelOk messageFound parseDate now clock st))) k = None"
    and "map_of (participationData
           (snd (periodicUpdate True channelOk messageFound parseDate now clock st))) k = None"
    by (simp_all add: periodicUpdate_def Let_def redrawn_def [symmetric]
        cleanupLoop_adds_nothing)
qed

text \<open>
  A tracked message that is not lost comes to the clean-up pass as it was; when that pass
  runs to its end the message is dropped from both maps if it is old, and keeps both
  entries if it is not.
\<close>

lemma periodicUpdate_kept_or_old:
  assumes "distinct (map fst (messageBossData st))"
    and "map_of (messageBossData st) k = Some b"
    and "\<not> messageLost channelOk messageFound st k"
    and "fst (periodicUpdate True channelOk messageFound parseDate now clock st) = None"
  shows "map_of (messageBossData
           (snd (periodicUpdate True channelOk messageFound parseDate now clock st))) k =
         (if isOld parseDate now (clock k) b = Inr True then None else Some b)"
    and "map_of (participationData
           (snd (periodicUpdate True channelOk messageFound parseDate now clock st))) k =
         (if isOld parseDate now (clock k) b = Inr True then None
          else map_of (participationData st) k)"
proof -
  define redrawn where "redrawn = redrawLoop channelOk messageFound (messageBossData st) st"
  have tick: "periodicUpdate True channelOk messageFound parseDate now clock st =
      cleanupLoop parseDate now clock (messageBossData redrawn) redrawn"
    by (simp add: periodicUpdate_def Let_def redrawn_def)
  have b: "map_of (messageBossData redrawn) k = Some b"
    using assms(2,3) by (simp add: redrawn_def redrawLoop_bossData)
  have p: "map_of (participationData redrawn) k = map_of (participationData st) k"
    using assms(3) by (simp add: redrawn_def redrawLoop_participation)
  have d: "distinct (map fst (messageBossData redrawn))"
    using assms(1) unfolding redrawn_def by (rule redrawLoop_distinct)
  have mem: "\<And>b'. (k, b') \<in> set (messageBossData redrawn) \<longleftrightarrow> b' = b"
    using b by (auto simp: map_of_eq_Some_iff [OF d, symmetric])
  have ended: "fst (cleanupLoop parseDate now clock (messageBossData redrawn) redrawn) = None"
    using assms(4) by (simp add: tick)
  show "map_of (messageBossData
           (snd (periodicUpdate True channelOk messageFound parseDate now clock st))) k =
         (if isOld parseDate now (clock k) b = Inr True then None else Some b)"
    by (simp add: tick cleanupLoop_bossData [OF ended] mem b)
  show "map_of (participationData
           (snd (periodicUpdate True channelOk messageFound parseDate now clock st))) k =
         (if isOld parseDate now (clock k) b = Inr True then None
          else map_of (participationData st) k)"
    by (simp add: tick cleanupLoop_participation [OF ended] mem p)
qed

text \<open>
  The clean-up loop has no \<open>try\<close>. With a boss whose \<open>respawn_hours\<close> carry the computed date
  out of range tracked as \<open>N0\<close> before the sample boss, the pass run twenty-five hours
  after the sample boss's respawn instant ends with the exception at \<open>N0\<close>, and \<open>N1\<close> stays
  tracked.
\<close>

lemma cleanup_pass_aborts:
  "periodicUpdate True (\<lambda>m. True) (\<lambda>m. True) sampleParse 1754043000000 (\<lambda>m. 1754043000000)
     (register ''N1'' timitris
       (register ''N0'' (timitris\<lparr>respawn_hours := Some 3000000000\<rparr>) emptyStore))
   = (Some RangeError,
      register ''N1'' timitris
       (register ''N0'' (timitris\<lparr>respawn_hours := Some 3000000000\<rparr>) emptyStore))"
proof -
  have "calculateRespawnTime sampleParse (timitris\<lparr>respawn_hours := Some 3000000000\<rparr>)
      1754043000000 = Inl RangeError"
    by (simp add: calculateRespawnTime_def respawnTimeIfFuture_def deathTimePlusHours_def
        sample_huge_hours sampleParse_def timitris_def)
  then show ?thesis
    by (simp add: periodicUpdate_def register_def emptyStore_def isOld_def Let_def)
qed

text \<open>Every operation keeps the keys of both maps free of repetitions.\<close>

lemma distinctKeys_emptyStore: "distinctKeys emptyStore"
  by (simp add: distinctKeys_def emptyStore_def)

lemma distinctKeys_register: "distinctKeys st \<Longrightarrow> distinctKeys (register m b st)"
  by (simp add: distinctKeys_def register_def distinct_update)

lemma distinctKeys_handleReactionAdd:
  assumes "distinctKeys st"
  shows "distinctKeys (fst (handleReactionAdd m e u st))"
proof -
  consider "e = checkMark" | "e = crossMark" | "e \<noteq> checkMark" "e \<noteq> crossMark"
    by blast
  then show ?thesis
  proof cases
    case 1
    with assms show ?thesis
      by (simp add: handleReactionAdd_check Let_def distinctKeys_def distinct_update)
  next
    case 2
    with assms show ?thesis
      by (simp add: handleReactionAdd_cross Let_def distinctKeys_def distinct_update)
  next
    case 3
    with assms show ?thesis
      by (simp add: handleReactionAdd_other)
  qed
qed

lemma distinctKeys_handleReactionRemove:
  assumes "distinctKeys st"
  shows "distinctKeys (fst (handleReactionRemove m e u st))"
proof (cases "map_of (participationData st) m")
  case None
  with assms show ?thesis by (simp add: handleReactionRemove_untracked)
next
  case (Some d)
  consider "e = checkMark" | "e = crossMark" | "e \<noteq> checkMark" "e \<noteq> crossMark"
    by blast
  then show ?thesis
  proof cases
    case 1
    with assms Some show ?thesis
      by (simp add: handleReactionRemove_check distinctKeys_def distinct_update)
  next
    case 2
    with assms Some show ?thesis
      by (simp add: handleReactionRemove_cross distinctKeys_def distinct_update)
  next
    case 3
    with assms show ?thesis
      by (simp add: handleReactionRemove_other)
  qed
qed

lemma distinctKeys_redrawLoop:
  "distinctKeys st \<Longrightarrow> distinctKeys (redrawLoop channelOk messageFound es st)"
  by (induction es arbitrary: st) (auto simp: distinctKeys_def distinct_delete)

lemma distinctKeys_cleanupLoop:
  "distinctKeys st \<Longrightarrow> distinctKeys (snd (cleanupLoop p now clk es st))"
  by (induction es arbitrary: st)
    (auto simp: distinctKeys_def distinct_delete split: sum.splits)

lemma distinctKeys_periodicUpdate:
  "distinctKeys st \<Longrightarrow>
   distinctKeys (snd (periodicUpdate isConnected channelOk messageFound p now clock st))"
  by (simp add: periodicUpdate_def Let_def distinctKeys_redrawLoop distinctKeys_cleanupLoop)

text \<open>
  C7, as stated: a tick evicts exactly the tracked notifications whose computed respawn
  instant is valid and more than twenty-four hours before the tick's instant. With the
  sample boss tracked as \<open>N1\<close>, its respawn instant 1753953000000: a tick twenty-five
  hours later, while the bot is not connected, returns at once and \<open>N1\<close> stays tracked; a
  tick twenty-three hours later, in which the message \<open>N1\<close> is not found, drops \<open>N1\<close> from
  both maps.
\<close>

theorem stale_entries_evicted_counterexample:
  "respawnLongPast sampleParse timitris 1754043000000 1754043000000 \<and>
   map_of (messageBossData (snd
     (periodicUpdate False (\<lambda>m. True) (\<lambda>m. True) sampleParse 1754043000000
        (\<lambda>m. 1754043000000) storeN1))) ''N1'' = Some timitris \<and>
   map_of (participationData (snd
     (periodicUpdate False (\<lambda>m. True) (\<lambda>m. True) sampleParse 1754043000000
        (\<lambda>m. 1754043000000) storeN1))) ''N1'' = Some emptyParticipation \<and>
   \<not> respawnLongPast sampleParse timitris 1754035800000 1754035800000 \<and>
   map_of (messageBossData (snd
     (periodicUpdate True (\<lambda>m. True) (\<lambda>m. False) sampleParse 1754035800000
        (\<lambda>m. 1754035800000) storeN1))) ''N1'' = None \<and>
   map_of (participationData (snd
     (periodicUpdate True (\<lambda>m. True) (\<lambda>m. False) sampleParse 1754035800000
        (\<lambda>m. 1754035800000) storeN1))) ''N1'' = None"
proof -
  note defs = calculateRespawnTime_def respawnTimeIfFuture_def deathTimePlusHours_def
    sample_death_plus_hours sampleParse_def timitris_def
  have c25: "calculateRespawnTime sampleParse timitris 1754043000000
      = Inr (Some (Date 1753953000000))"
    and c23: "calculateRespawnTime sampleParse timitris 1754035800000
      = Inr (Some (Date 1753953000000))"
    by (simp_all add: defs)
  have l25: "respawnLongPast sampleParse timitris 1754043000000 1754043000000"
    and l23: "\<not> respawnLongPast sampleParse timitris 1754035800000 1754035800000"
    by (simp_all add: respawnLongPast_def c25 c23)
  have off: "map_of (messageBossData (snd
      (periodicUpdate False (\<lambda>m. True) (\<lambda>m. True) sampleParse 1754043000000
        (\<lambda>m. 1754043000000) storeN1))) ''N1'' = Some timitris"
    "map_of (participationData (snd
      (periodicUpdate False (\<lambda>m. True) (\<lambda>m. True) sampleParse 1754043000000
        (\<lambda>m. 1754043000000) storeN1))) ''N1'' = Some emptyParticipation"
    by (simp_all add: periodicUpdate_def storeN1_def register_def emptyStore_def)
  have redrawn: "redrawLoop (\<lambda>m. True) (\<lambda>m. False) (messageBossData storeN1) storeN1
      = emptyStore"
    by (simp add: storeN1_def register_def emptyStore_def)
  have lost: "map_of (messageBossData (snd
      (periodicUpdate True (\<lambda>m. True) (\<lambda>m. False) sampleParse 1754035800000
        (\<lambda>m. 1754035800000) storeN1))) ''N1'' = None"
    "map_of (participationData (snd
      (periodicUpdate True (\<lambda>m. True) (\<lambda>m. False) sampleParse 1754035800000
        (\<lambda>m. 1754035800000) storeN1))) ''N1'' = None"
    by (simp_all add: periodicUpdate_def redrawn) (simp_all add: emptyStore_def)
  show ?thesis
    by (intro conjI) (fact l25 off l23 lost)+
qed

text \<open>
  C7, amended: a tick while the bot is not connected changes nothing. In a tick while it
  is connected, a tracked notification whose message the redraw pass looks for and does
  not find is evicted, whatever its respawn instant. Of the other tracked
  notifications, a tick whose clean-up pass runs to its end evicts exactly those whose
  computed respawn instant is valid and more than twenty-four hours before the tick's
  instant: such a notification loses its boss data and its participation record
  together, every other one keeps both. Such a tick run twenty-five hours after the
  computed instant evicts the notification; one run twenty-three hours after it does
  not. The instant is the one \<open>calculateRespawnTime\<close> computes when the clean-up loop
  visits the notification.
\<close>

theorem stale_entries_evicted:
  assumes "distinct (map fst (messageBossData st))"
    and "abs (now - 86400000) \<le> maxTime"
    and "map_of (messageBossData st) k = Some b"
  shows
    "periodicUpdate False channelOk messageFound parseDate now clock st = (None, st) \<and>
     (messageLost channelOk messageFound st k \<longrightarrow>
        map_of (messageBossData
          (snd (periodicUpdate True channelOk messageFound parseDate now clock st))) k = None \<and>
        map_of (participationData
          (snd (periodicUpdate True channelOk messageFound parseDate now clock st))) k = None) \<and>
     (\<not> messageLost channelOk messageFound st k \<and>
      fst (periodicUpdate True channelOk messageFound parseDate now clock st) = None \<longrightarrow>
        (respawnLongPast parseDate b (clock k) now \<longrightarrow>
           map_of (messageBossData
             (snd (periodicUpdate True channelOk messageFound parseDate now clock st))) k = None \<and>
           map_of (participationData
             (snd (periodicUpdate True channelOk messageFound parseDate now clock st))) k = None) \<and>
        (\<not> respawnLongPast parseDate b (clock k) now \<longrightarrow>
           map_of (messageBossData
             (snd (periodicUpdate True channelOk messageFound parseDate now clock st))) k = Some b \<and>
           map_of (participationData
             (snd (periodicUpdate True channelOk messageFound parseDate now clock st))) k
             = map_of (participationData st) k) \<and>
        (calculateRespawnTime parseDate b (clock k) = Inr (Some (Date t)) \<and>
         now = t + 25 * 3600000 \<longrightarrow>
           map_of (messageBossData
             (snd (periodicUpdate True channelOk messageFound parseDate now clock st))) k = None \<and>
           map_of (participationData
             (snd (periodicUpdate True channelOk messageFound parseDate now clock st))) k = None) \<and>
        (calculateRespawnTime parseDate b (clock k) = Inr (Some (Date t)) \<and>
         now = t + 23 * 3600000 \<longrightarrow>
           map_of (messageBossData
             (snd (periodicUpdate True channelOk messageFound parseDate now clock st))) k = Some b \<and>
           map_of (participationData
             (snd (periodicUpdate True channelOk messageFound parseDate now clock st))) k
             = map_of (participationData st) k))"
proof -
  let ?after = "snd (periodicUpdate True channelOk messageFound parseDate now clock st)"
  note old = isOld_iff [OF assms(2), of parseDate "clock k" b]
  have late: "respawnLongPast parseDate b (clock k) now"
    if "calculateRespawnTime parseDate b (clock k) = Inr (Some (Date t)) \<and> now = t + 25 * 3600000"
    using that by (simp add: respawnLongPast_def)
  have early: "\<not> respawnLongPast parseDate b (clock k) now"
    if "calculateRespawnTime parseDate b (clock k) = Inr (Some (Date t)) \<and> now = t + 23 * 3600000"
    using that by (simp add: respawnLongPast_def)
  have lost: "map_of (messageBossData ?after) k = None \<and>
      map_of (participationData ?after) k = None"
    if "messageLost channelOk messageFound st k"
    using periodicUpdate_lost [OF assms(3) that] by simp
  have pass: "(respawnLongPast parseDate b (clock k) now \<longrightarrow>
        map_of (messageBossData ?after) k = None \<and>
        map_of (participationData ?after) k = None) \<and>
      (\<not> respawnLongPast parseDate b (clock k) now \<longrightarrow>
        map_of (messageBossData ?after) k = Some b \<and>
        map_of (participationData ?after) k = map_of (participationData st) k) \<and>
      (calculateRespawnTime parseDate b (clock k) = Inr (Some (Date t)) \<and>
       now = t + 25 * 3600000 \<longrightarrow>
        map_of (messageBossData ?after) k = None \<and>
        map_of (participationData ?after) k = None) \<and>
      (calculateRespawnTime parseDate b (clock k) = Inr (Some (Date t)) \<and>
       now = t + 23 * 3600000 \<longrightarrow>
        map_of (messageBossData ?after) k = Some b \<and>
        map_of (participationData ?after) k = map_of (participationData st) k)"
    if h: "\<not> messageLost channelOk messageFound st k \<and>
      fst (periodicUpdate True channelOk messageFound parseDate now clock st) = None"
  proof -
    note look = periodicUpdate_kept_or_old
      [OF assms(1) assms(3) h [THEN conjunct1] h [THEN conjunct2]]
    have stale: "map_of (messageBossData ?after) k = None \<and>
        map_of (participationData ?after) k = None"
      if "respawnLongPast parseDate b (clock k) now"
      using that by (simp add: look old)
    have fresh: "map_of (messageBossData ?after) k = Some b \<and>
        map_of (participationData ?after) k = map_of (participationData st) k"
      if "\<not> respawnLongPast parseDate b (clock k) now"
      using that by (simp add: look old)
    show ?thesis
    proof (intro conjI impI)
      assume a: "respawnLongPast parseDate b (clock k) now"
      from stale [OF a]
      show "map_of (messageBossData ?after) k = None"
        and "map_of (participationData ?after) k = None"
        by simp_all
    next
      assume a: "\<not> respawnLongPast parseDate b (clock k) now"
      from fresh [OF a]
      show "map_of (messageBossData ?after) k = Some b"
        and "map_of (participationData ?after) k = map_of (participationData st) k"
        by simp_all
    next
      assume a: "calculateRespawnTime parseDate b (clock k) = Inr (Some (Date t)) \<and>
        now = t + 25 * 3600000"
      from stale [OF late [OF a]]
      show "map_of (messageBossData ?after) k = None"
        and "map_of (participationData ?after) k = None"
        by simp_all
    next
      assume a: "calculateRespawnTime parseDate b (clock k) = Inr (Some (Date t)) \<and>
        now = t + 23 * 3600000"
      from fresh [OF early [OF a]]
      show "map_of (messageBossData ?after) k = Some b"
        and "map_of (participationData ?after) k = map_of (participationData st) k"
        by simp_all
    qed
  qed
  show ?thesis
  proof (intro conjI)
    show "periodicUpdate False channelOk messageFound parseDate now clock st = (None, st)"
      by (rule periodicUpdate_disconnected)
    show "messageLost channelOk messageFound st k \<longrightarrow>
        map_of (messageBossData ?after) k = None \<and>
        map_of (participationData ?after) k = None"
      by (rule impI) (rule lost)
    show "\<not> messageLost channelOk messageFound st k \<and>
      fst (periodicUpdate True channelOk messageFound parseDate now clock st) = None \<longrightarrow>
        (respawnLongPast parseDate b (clock k) now \<longrightarrow>
           map_of (messageBossData ?after) k = None \<and>
           map_of (participationData ?after) k = None) \<and>
        (\<not> respawnLongPast parseDate b (clock k) now \<longrightarrow>
           map_of (messageBossData ?after) k = Some b \<and>
           map_of (participationData ?after) k = map_of (participationData st) k) \<and>
        (calculateRespawnTime parseDate b (clock k) = Inr (Some (Date t)) \<and>
         now = t + 25 * 3600000 \<longrightarrow>
           map_of (messageBossData ?after) k = None \<and>
           map_of (participationData ?after) k = None) \<and>
        (calculateRespawnTime parseDate b (clock k) = Inr (Some (Date t)) \<and>
         now = t + 23 * 3600000 \<longrightarrow>
           map_of (messageBossData ?after) k = Some b \<and>
           map_of (participationData ?after) k = map_of (participationData st) k)"
      by (rule impI) (rule pass)
  qed
qed

text \<open>
  The sample boss as message \<open>N1\<close>, its respawn instant 1753953000000. A tick while not
  connected changes nothing; a tick in which the message is not found evicts \<open>N1\<close>
  twenty-three hours after the instant; with the message found, the tick twenty-five
  hours after the instant evicts \<open>N1\<close> and the tick twenty-three hours after it keeps \<open>N1\<close>.
\<close>

theorem stale_entries_evicted_witness:
  "distinct (map fst (messageBossData storeN1)) \<and>
   abs ((1754043000000 :: int) - 86400000) \<le> maxTime \<and>
   abs ((1754035800000 :: int) - 86400000) \<le> maxTime \<and>
   map_of (messageBossData storeN1) ''N1'' = Some timitris \<and>
   periodicUpdate False (\<lambda>m. True) (\<lambda>m. True) sampleParse 1754043000000
     (\<lambda>m. 1754043000000) storeN1 = (None, storeN1) \<and>
   messageLost (\<lambda>m. True) (\<lambda>m. False) storeN1 ''N1'' \<and>
   map_of (messageBossData (snd
     (periodicUpdate True (\<lambda>m. True) (\<lambda>m. False) sampleParse 1754035800000
        (\<lambda>m. 1754035800000) storeN1))) ''N1'' = None \<and>
   map_of (participationData (snd
     (periodicUpdate True (\<lambda>m. True) (\<lambda>m. False) sampleParse 1754035800000
        (\<lambda>m. 1754035800000) storeN1))) ''N1'' = None \<and>
   \<not> messageLost (\<lambda>m. True) (\<lambda>m. True) storeN1 ''N1'' \<and>
   fst (periodicUpdate True (\<lambda>m. True) (\<lambda>m. True) sampleParse 1754043000000
     (\<lambda>m. 1754043000000) storeN1) = None \<and>
   fst (periodicUpdate True (\<lambda>m. True) (\<lambda>m. True) sampleParse 1754035800000
     (\<lambda>m. 1754035800000) storeN1) = None \<and>
   calculateRespawnTime sampleParse timitris 1754043000000 = Inr (Some (Date 1753953000000)) \<and>
   calculateRespawnTime sampleParse timitris 1754035800000 = Inr (Some (Date 1753953000000)) \<and>
   respawnLongPast sampleParse timitris 1754043000000 1754043000000 \<and>
   \<not> respawnLongPast sampleParse timitris 1754035800000 1754035800000 \<and>
   map_of (messageBossData (snd
     (periodicUpdate True (\<lambda>m. True) (\<lambda>m. True) sampleParse 1754043000000
        (\<lambda>m. 1754043000000) storeN1))) ''N1'' = None \<and>
   map_of (participationData (snd
     (periodicUpdate True (\<lambda>m. True) (\<lambda>m. True) sampleParse 1754043000000
        (\<lambda>m. 1754043000000) storeN1))) ''N1'' = None \<and>
   map_of (messageBossData (snd
     (periodicUpdate True (\<lambda>m. True) (\<lambda>m. True) sampleParse 1754035800000
        (\<lambda>m. 1754035800000) storeN1))) ''N1'' = Some timitris \<and>
   map_of (participationData (snd
     (periodicUpdate True (\<lambda>m. True) (\<lambda>m. True) sampleParse 1754035800000
        (\<lambda>m. 1754035800000) storeN1))) ''N1'' = Some emptyParticipation"
proof -
  have d: "distinct (map fst (messageBossData storeN1))"
    by (simp add: storeN1_def register_def emptyStore_def)
  have r25: "abs ((1754043000000 :: int) - 86400000) \<le> maxTime"
    and r23: "abs ((1754035800000 :: int) - 86400000) \<le> maxTime"
    by (simp_all add: maxTime_def)
  have b: "map_of (messageBossData storeN1) ''N1'' = Some timitris"
    and p: "map_of (participationData storeN1) ''N1'' = Some emptyParticipation"
    by (simp_all add: storeN1_def register_def emptyStore_def)
  have gone: "messageLost (\<lambda>m. True) (\<lambda>m. False) storeN1 ''N1''"
    and here: "\<not> messageLost (\<lambda>m. True) (\<lambda>m. True) storeN1 ''N1''"
    by (simp_all add: messageLost_def p)
  note defs = calculateRespawnTime_def respawnTimeIfFuture_def deathTimePlusHours_def
    sample_death_plus_hours sampleParse_def timitris_def
  have c25: "calculateRespawnTime sampleParse timitris 1754043000000
      = Inr (Some (Date 1753953000000))"
    and c23: "calculateRespawnTime sampleParse timitris 1754035800000
      = Inr (Some (Date 1753953000000))"
    by (simp_all add: defs)
  have e25: "(1754043000000 :: int) = 1753953000000 + 25 * 3600000"
    and e23: "(1754035800000 :: int) = 1753953000000 + 23 * 3600000"
    by simp_all
  have l25: "respawnLongPast sampleParse timitris 1754043000000 1754043000000"
    and l23: "\<not> respawnLongPast sampleParse timitris 1754035800000 1754035800000"
    by (simp_all add: respawnLongPast_def c25 c23)
  have o25: "isOld sampleParse 1754043000000 1754043000000 timitris = Inr True"
    using l25 by (simp add: isOld_iff [OF r25])
  have o23: "isOld sampleParse 1754035800000 1754035800000 timitris = Inr False"
    by (simp add: isOld_def c23 getTimeLess_def newDate_def maxTime_def truncateNumber_def)
  have same: "redrawLoop (\<lambda>m. True) (\<lambda>m. True) (messageBossData storeN1) storeN1 = storeN1"
    by (simp add: storeN1_def register_def emptyStore_def)
  have entries: "messageBossData storeN1 = [(''N1'', timitris)]"
    by (simp add: storeN1_def register_def emptyStore_def)
  have f25: "fst (periodicUpdate True (\<lambda>m. True) (\<lambda>m. True) sampleParse 1754043000000
      (\<lambda>m. 1754043000000) storeN1) = None"
    by (simp add: periodicUpdate_def same) (simp add: entries o25)
  have f23: "fst (periodicUpdate True (\<lambda>m. True) (\<lambda>m. True) sampleParse 1754035800000
      (\<lambda>m. 1754035800000) storeN1) = None"
    by (simp add: periodicUpdate_def same) (simp add: entries o23)
  note t25 = stale_entries_evicted
    [OF d r25 b, of "\<lambda>m. True" "\<lambda>m. True" sampleParse "\<lambda>m. 1754043000000" 1753953000000]
  note t23 = stale_entries_evicted
    [OF d r23 b, of "\<lambda>m. True" "\<lambda>m. True" sampleParse "\<lambda>m. 1754035800000" 1753953000000]
  note tl = stale_entries_evicted
    [OF d r23 b, of "\<lambda>m. True" "\<lambda>m. False" sampleParse "\<lambda>m. 1754035800000" 0]
  note off = t25 [THEN conjunct1]
  note lost = tl [THEN conjunct2, THEN conjunct1, rule_format, OF gone]
  note p25 = t25 [THEN conjunct2, THEN conjunct2, rule_format, OF conjI, OF here f25]
  note p23 = t23 [THEN conjunct2, THEN conjunct2, rule_format, OF conjI, OF here f23]
  note v25 = p25 [THEN conjunct1, rule_format, OF l25]
  note v23 = p23 [THEN conjunct2, THEN conjunct1, rule_format, OF l23]
  note w25 = p25 [THEN conjunct2, THEN conjunct2, THEN conjunct1, rule_format, OF conjI,
    OF c25 e25]
  note w23 = p23 [THEN conjunct2, THEN conjunct2, THEN conjunct2, rule_format, OF conjI,
    OF c23 e23]
  show ?thesis
    by (intro conjI)
      (fact d r25 r23 b off gone lost [THEN conjunct1] lost [THEN conjunct2] here f25 f23
        c25 c23 l25 l23 w25 [THEN conjunct1] w25 [THEN conjunct2]
        w23 [THEN conjunct1] w23 [THEN conjunct2, unfolded p])+
qed

end
